theory Spec2Isabelle
  imports Main "HOL-Library.Word"
begin

section \<open>The RTMS connection manager of zoom-rtms/index.js\<close>

text \<open>
  A shallow embedding of \<^verbatim>\<open>src/zoom-rtms/index.js\<close>: the signature generator, the
  session registry, the signaling and media socket handlers, the reconnection timers and
  the teardown path. The program is single-threaded and event driven, so every callback
  of the source is a function from the world before the callback to the world after it,
  and the event loop is a step function over events.

  What lies outside the repository is not modelled but recorded: a call to the socket
  library (\<^verbatim>\<open>new WebSocket\<close>, \<^verbatim>\<open>send\<close>, \<^verbatim>\<open>close\<close>), to \<^verbatim>\<open>setTimeout\<close> or to the
  console appends an entry to the world's list of effects and is taken to return
  normally. The keyed hash of the crypto library is a parameter of the model.
\<close>

subsection \<open>JavaScript values\<close>

text \<open>
  A received frame is abstracted to what \<^verbatim>\<open>JSON.parse(data.toString())\<close> makes of it:
  a syntax error, or a JSON value. Numbers are the values the dispatch compares against
  integer literals with \<^verbatim>\<open>===\<close>, so they are integers here. An object holds its own
  properties, each key once. \<^verbatim>\<open>undefined\<close>, which \<^verbatim>\<open>JSON.parse\<close> never returns and a
  property access may, is \<open>None\<close> of \<open>json option\<close>.
\<close>

datatype json =
    JNull
  | JBool bool
  | JNum int
  | JStr string
  | JArr "json list"
  | JObj "(string \<times> json) list"

type_synonym jsval = "json option"

datatype wire = Garbage | Json json

datatype error = SyntaxError | TypeError | InvalidArgType

text \<open>\<^verbatim>\<open>v.k\<close>: a TypeError on \<^verbatim>\<open>null\<close> and \<^verbatim>\<open>undefined\<close>, the property of an object,
  \<^verbatim>\<open>undefined\<close> on every other value (none of the names the source reads is a property of
  a string, number, boolean or array prototype).\<close>

fun get_member :: "jsval \<Rightarrow> string \<Rightarrow> error + jsval" where
  "get_member None k = Inl TypeError"
| "get_member (Some JNull) k = Inl TypeError"
| "get_member (Some (JObj kvs)) k = Inr (map_of kvs k)"
| "get_member (Some v) k = Inr None"

text \<open>\<^verbatim>\<open>v?.k\<close>: \<^verbatim>\<open>undefined\<close> where \<^verbatim>\<open>v.k\<close> would throw.\<close>

fun opt_member :: "jsval \<Rightarrow> string \<Rightarrow> jsval" where
  "opt_member None k = None"
| "opt_member (Some JNull) k = None"
| "opt_member (Some (JObj kvs)) k = map_of kvs k"
| "opt_member (Some v) k = None"

text \<open>\<^verbatim>\<open>v.k\<close> for a value \<open>v\<close> that is known not to be \<^verbatim>\<open>null\<close>, where the access cannot
  throw.\<close>

fun field :: "json \<Rightarrow> string \<Rightarrow> jsval" where
  "field (JObj kvs) k = map_of kvs k"
| "field v k = None"

text \<open>The truth value of a condition \<^verbatim>\<open>if (v)\<close>.\<close>

fun truthy :: "jsval \<Rightarrow> bool" where
  "truthy None = False"
| "truthy (Some JNull) = False"
| "truthy (Some (JBool b)) = b"
| "truthy (Some (JNum n)) = (n \<noteq> 0)"
| "truthy (Some (JStr s)) = (s \<noteq> [])"
| "truthy (Some v) = True"

text \<open>\<^verbatim>\<open>JSON.stringify\<close> of an object literal: a property whose value is \<^verbatim>\<open>undefined\<close> is left
  out.\<close>

fun stringify_fields :: "(string \<times> jsval) list \<Rightarrow> (string \<times> json) list" where
  "stringify_fields [] = []"
| "stringify_fields ((k, None) # kvs) = stringify_fields kvs"
| "stringify_fields ((k, Some v) # kvs) = (k, v) # stringify_fields kvs"

definition stringify :: "(string \<times> jsval) list \<Rightarrow> json" where
  "stringify kvs = JObj (stringify_fields kvs)"

subsection \<open>Configuration and the signature generator\<close>

text \<open>\<^verbatim>\<open>config.clientId\<close> and \<^verbatim>\<open>config.clientSecret\<close> are read from the environment and are
  \<^verbatim>\<open>undefined\<close> when the variable is not set.\<close>

record config =
  clientId :: "string option"
  clientSecret :: "string option"

text \<open>The crypto library's HMAC-SHA256, from the key and the message to the digest
  bytes, is a parameter. \<^verbatim>\<open>digest('hex')\<close> writes each byte as two lower-case hexadecimal
  digits.\<close>

type_synonym keyed_hash = "string \<Rightarrow> string \<Rightarrow> 8 word list"

definition hex_alphabet :: string where
  "hex_alphabet = ''0123456789abcdef''"

definition hexdigit :: "nat \<Rightarrow> char" where
  "hexdigit n = hex_alphabet ! n"

definition hex_byte :: "8 word \<Rightarrow> string" where
  "hex_byte b = [hexdigit (unat b div 16), hexdigit (unat b mod 16)]"

definition digest_hex :: "8 word list \<Rightarrow> string" where
  "digest_hex bs = concat (map hex_byte bs)"

text \<open>A template literal writes \<^verbatim>\<open>undefined\<close> as the text "undefined".\<close>

fun template :: "string option \<Rightarrow> string" where
  "template None = ''undefined''"
| "template (Some s) = s"

definition signed_message :: "config \<Rightarrow> string \<Rightarrow> string \<Rightarrow> string" where
  "signed_message cfg sessionId streamId =
     template (clientId cfg) @ '','' @ sessionId @ '','' @ streamId"

text \<open>\<^verbatim>\<open>createHmac\<close> rejects a key that is \<^verbatim>\<open>undefined\<close>.\<close>

definition generateSignature :: "keyed_hash \<Rightarrow> config \<Rightarrow> string \<Rightarrow> string \<Rightarrow> error + string" where
  "generateSignature hmac cfg sessionId streamId =
     (let message = signed_message cfg sessionId streamId in
      case clientSecret cfg of
        None \<Rightarrow> Inl InvalidArgType
      | Some key \<Rightarrow> Inr (digest_hex (hmac key message)))"

text \<open>A keyed hash to run the model with at concrete inputs: 32 bytes, the bytes of the
  key and the message, padded with zeros. It stands in for the library's function in
  the examples only.\<close>

definition example_hash :: keyed_hash where
  "example_hash key message =
     take 32 (map (\<lambda>c. word_of_nat (of_char c)) (key @ message) @ replicate 32 0)"

definition example_config :: config where
  "example_config = \<lparr>clientId = Some ''id'', clientSecret = Some ''k''\<rparr>"

subsection \<open>The session registry\<close>

type_synonym addr = nat

text \<open>\<^verbatim>\<open>activeConnections\<close> is a \<^verbatim>\<open>Map\<close> from session identifiers to connection entries:
  its entries in insertion order. \<^verbatim>\<open>set\<close> replaces the value of a key that is present and
  appends an entry otherwise.\<close>

type_synonym registry = "(string \<times> addr) list"

definition map_get :: "registry \<Rightarrow> string \<Rightarrow> addr option" where
  "map_get r k = map_of r k"

fun map_set :: "registry \<Rightarrow> string \<Rightarrow> addr \<Rightarrow> registry" where
  "map_set [] k v = [(k, v)]"
| "map_set ((k', v') # r) k v = (if k' = k then (k, v) # r else (k', v') # map_set r k v)"

definition map_delete :: "registry \<Rightarrow> string \<Rightarrow> registry" where
  "map_delete r k = filter (\<lambda>e. fst e \<noteq> k) r"

definition map_keys :: "registry \<Rightarrow> string list" where
  "map_keys r = map fst r"

subsection \<open>Connection entries, sockets, timers and the world\<close>

datatype readyState = CONNECTING | OPEN | CLOSING | CLOSED

record channel =
  socket :: "addr option"
  state :: string
  lastKeepAlive :: "nat option"

record conn =
  sessionId :: string
  streamId :: string
  serverUrls :: string
  shouldReconnect :: bool
  signaling :: channel
  media :: channel

text \<open>\<^verbatim>\<open>conn[type]\<close> for \<^verbatim>\<open>type\<close> one of \<^verbatim>\<open>'signaling'\<close> and \<^verbatim>\<open>'media'\<close>.\<close>

datatype chan_type = Signaling | Media

fun chan :: "chan_type \<Rightarrow> conn \<Rightarrow> channel" where
  "chan Signaling c = signaling c"
| "chan Media c = media c"

fun chan_update :: "chan_type \<Rightarrow> (channel \<Rightarrow> channel) \<Rightarrow> conn \<Rightarrow> conn" where
  "chan_update Signaling f c = c\<lparr>signaling := f (signaling c)\<rparr>"
| "chan_update Media f c = c\<lparr>media := f (media c)\<rparr>"

text \<open>The handlers attached to a socket are closures over the arguments of the function
  that created it: \<^verbatim>\<open>connectToSignalingWebSocket\<close> (sessionId, streamId, conn) or
  \<^verbatim>\<open>connectToMediaWebSocket\<close> (mediaUrl, sessionId, streamId, signalingSocket, conn).\<close>

datatype closure =
    SignalingWs string string addr
  | MediaWs jsval string string "addr option" addr

record websocket =
  url :: jsval
  readyState :: readyState
  handlers :: closure
  onceOpenClose :: nat

text \<open>The callbacks handed to \<^verbatim>\<open>setTimeout\<close>, with the variables they close over.\<close>

datatype timer =
    ReconnectMedia jsval string string addr
  | ReconnectSignaling string string addr

datatype effect =
    Log string
  | NewWebSocket addr jsval
  | Send addr json
  | Close addr
  | OnceOpen addr
  | SetTimeout timer nat

text \<open>Connection entries and sockets are objects on the heap: an address is an index into
  the list of all entries (sockets) allocated so far. The source holds references, which
  always point to an object; that every address held by an entry, a closure, a timer or
  the registry is allocated is an invariant of the event loop, proved below for every
  world a run reaches. A pending timer is kept with the time it is due; all delays are
  equal, so the pending timers are in the order in which they fire. The clock counts
  milliseconds.\<close>

record world =
  activeConnections :: registry
  conns :: "conn list"
  sockets :: "websocket list"
  timers :: "(nat \<times> timer) list"
  clock :: nat
  effects :: "effect list"

definition boot :: world where
  "boot = \<lparr>activeConnections = [], conns = [], sockets = [], timers = [], clock = 0, effects = []\<rparr>"

datatype outcome = Returns world | Throws error world

definition console :: "string \<Rightarrow> world \<Rightarrow> world" where
  "console line w = w\<lparr>effects := effects w @ [Log line]\<rparr>"

definition conn_update :: "addr \<Rightarrow> (conn \<Rightarrow> conn) \<Rightarrow> world \<Rightarrow> world" where
  "conn_update a f w = w\<lparr>conns := (conns w)[a := f (conns w ! a)]\<rparr>"

definition set_state :: "chan_type \<Rightarrow> addr \<Rightarrow> string \<Rightarrow> world \<Rightarrow> world" where
  "set_state ty a s w = conn_update a (chan_update ty (\<lambda>ch. ch\<lparr>state := s\<rparr>)) w"

definition set_socket :: "chan_type \<Rightarrow> addr \<Rightarrow> addr option \<Rightarrow> world \<Rightarrow> world" where
  "set_socket ty a s w = conn_update a (chan_update ty (\<lambda>ch. ch\<lparr>socket := s\<rparr>)) w"

definition set_lastKeepAlive :: "chan_type \<Rightarrow> addr \<Rightarrow> nat option \<Rightarrow> world \<Rightarrow> world" where
  "set_lastKeepAlive ty a t w = conn_update a (chan_update ty (\<lambda>ch. ch\<lparr>lastKeepAlive := t\<rparr>)) w"

definition set_shouldReconnect :: "addr \<Rightarrow> bool \<Rightarrow> world \<Rightarrow> world" where
  "set_shouldReconnect a b w = conn_update a (\<lambda>c. c\<lparr>shouldReconnect := b\<rparr>) w"

text \<open>\<^verbatim>\<open>new WebSocket(url, [], {...})\<close> with the handlers the caller attaches: the new socket
  is connecting, and its address is the number of sockets allocated before.\<close>

definition new_WebSocket :: "jsval \<Rightarrow> closure \<Rightarrow> world \<Rightarrow> world" where
  "new_WebSocket u h w =
     w\<lparr>sockets := sockets w @ [\<lparr>url = u, readyState = CONNECTING, handlers = h, onceOpenClose = 0\<rparr>],
       effects := effects w @ [NewWebSocket (length (sockets w)) u]\<rparr>"

definition ws_send :: "addr \<Rightarrow> json \<Rightarrow> world \<Rightarrow> world" where
  "ws_send a m w = w\<lparr>effects := effects w @ [Send a m]\<rparr>"

text \<open>\<^verbatim>\<open>ws.close()\<close>: a socket that is not closed yet starts closing.\<close>

definition ws_close :: "addr \<Rightarrow> world \<Rightarrow> world" where
  "ws_close a w =
     w\<lparr>sockets := (sockets w)[a := (sockets w ! a)
          \<lparr>readyState := (if readyState (sockets w ! a) = CLOSED then CLOSED else CLOSING)\<rparr>],
       effects := effects w @ [Close a]\<rparr>"

text \<open>\<^verbatim>\<open>ws.once('open', () => ws.close())\<close>.\<close>

definition ws_once_open_close :: "addr \<Rightarrow> world \<Rightarrow> world" where
  "ws_once_open_close a w =
     w\<lparr>sockets := (sockets w)[a := (sockets w ! a)\<lparr>onceOpenClose := Suc (onceOpenClose (sockets w ! a))\<rparr>],
       effects := effects w @ [OnceOpen a]\<rparr>"

definition setTimeout :: "timer \<Rightarrow> nat \<Rightarrow> world \<Rightarrow> world" where
  "setTimeout t ms w =
     w\<lparr>timers := timers w @ [(clock w + ms, t)], effects := effects w @ [SetTimeout t ms]\<rparr>"

subsection \<open>Messages the handlers send\<close>

text \<open>\<^verbatim>\<open>JSON.stringify({ msg_type: 13, timestamp: msg.timestamp })\<close>, the answer of both
  channels to a keep-alive request \<^verbatim>\<open>msg\<close>.\<close>

definition keep_alive_response :: "json \<Rightarrow> json" where
  "keep_alive_response msg =
     stringify [(''msg_type'', Some (JNum 13)), (''timestamp'', field msg ''timestamp'')]"

text \<open>\<^verbatim>\<open>JSON.stringify({ msg_type: 7, rtms_stream_id: streamId })\<close>.\<close>

definition stream_start_request :: "string \<Rightarrow> json" where
  "stream_start_request stid =
     stringify [(''msg_type'', Some (JNum 7)), (''rtms_stream_id'', Some (JStr stid))]"

subsection \<open>The media socket\<close>

definition media_handshake :: "string \<Rightarrow> string \<Rightarrow> string \<Rightarrow> json" where
  "media_handshake sid stid signature =
     JObj [(''msg_type'', JNum 3),
           (''protocol_version'', JNum 1),
           (''meeting_uuid'', JStr sid),
           (''session_id'', JStr sid),
           (''rtms_stream_id'', JStr stid),
           (''signature'', JStr signature),
           (''media_type'', JNum 32),
           (''payload_encryption'', JBool False),
           (''media_params'', JObj
              [(''audio'', JObj [(''content_type'', JNum 1), (''sample_rate'', JNum 1),
                                 (''channel'', JNum 1), (''codec'', JNum 1),
                                 (''data_opt'', JNum 1), (''send_rate'', JNum 100)]),
               (''video'', JObj [(''codec'', JNum 7), (''data_opt'', JNum 3),
                                 (''resolution'', JNum 2), (''fps'', JNum 25)]),
               (''deskshare'', JObj [(''codec'', JNum 5), (''resolution'', JNum 2),
                                     (''fps'', JNum 1)]),
               (''chat'', JObj [(''content_type'', JNum 5)]),
               (''transcript'', JObj [(''content_type'', JNum 5)])])]"

text \<open>The cases 14 to 18 of \<^verbatim>\<open>handleMediaMessage\<close>: when \<^verbatim>\<open>msg.content?.data\<close> is truthy
  the payload is logged. The cases 14 to 16 decode it first with \<^verbatim>\<open>Buffer.from\<close>, which
  takes a string or an array and rejects the other JSON values with a TypeError.\<close>

definition media_payload :: "string \<Rightarrow> bool \<Rightarrow> json \<Rightarrow> world \<Rightarrow> outcome" where
  "media_payload tag decode msg w =
     (let d = opt_member (field msg ''content'') ''data'' in
      if truthy d then
        (if decode \<and> \<not> (case d of Some (JStr s) \<Rightarrow> True | Some (JArr xs) \<Rightarrow> True | _ \<Rightarrow> False)
         then Throws TypeError w
         else Returns (console tag w))
      else Returns w)"

text \<open>The body of the \<^verbatim>\<open>try\<close> block of \<^verbatim>\<open>handleMediaMessage\<close>. After the read of
  \<^verbatim>\<open>msg.msg_type\<close> has not thrown, \<^verbatim>\<open>msg\<close> is not \<^verbatim>\<open>null\<close>.\<close>

definition handleMediaMessage_try ::
  "wire \<Rightarrow> addr \<Rightarrow> addr \<Rightarrow> addr option \<Rightarrow> string \<Rightarrow> string \<Rightarrow> world \<Rightarrow> outcome" where
  "handleMediaMessage_try data conn mediaWs signalingSocket sid stid w =
     (case data of
        Garbage \<Rightarrow> Throws SyntaxError w
      | Json msg \<Rightarrow>
          (case get_member (Some msg) ''msg_type'' of
             Inl e \<Rightarrow> Throws e w
           | Inr t \<Rightarrow>
               if t = Some (JNum 4) then
                 (if field msg ''status_code'' = Some (JNum 0) then
                    (let w1 = console ''[Media] Handshake successful - requesting stream start'' w in
                     case signalingSocket of
                       None \<Rightarrow> Throws TypeError w1
                     | Some s \<Rightarrow>
                         Returns (set_state Media conn ''streaming''
                           (ws_send s (stream_start_request stid) w1)))
                  else Returns (console ''[Media] Handshake failed'' w))
               else if t = Some (JNum 12) then
                 Returns (ws_send mediaWs (keep_alive_response msg) w)
               else if t = Some (JNum 14) then media_payload ''[Audio]'' True msg w
               else if t = Some (JNum 15) then media_payload ''[Video]'' True msg w
               else if t = Some (JNum 16) then media_payload ''[ScreenShare]'' True msg w
               else if t = Some (JNum 17) then media_payload ''[Transcript]'' False msg w
               else if t = Some (JNum 18) then media_payload ''[Chat]'' False msg w
               else Returns w))"

definition handleMediaMessage ::
  "wire \<Rightarrow> addr \<Rightarrow> addr \<Rightarrow> addr option \<Rightarrow> string \<Rightarrow> string \<Rightarrow> world \<Rightarrow> world" where
  "handleMediaMessage data conn mediaWs signalingSocket sid stid w =
     (case handleMediaMessage_try data conn mediaWs signalingSocket sid stid w of
        Returns w' \<Rightarrow> w'
      | Throws e w' \<Rightarrow> console ''[Media] Failed to parse message'' w')"

definition connectToMediaWebSocket ::
  "jsval \<Rightarrow> string \<Rightarrow> string \<Rightarrow> addr option \<Rightarrow> addr \<Rightarrow> world \<Rightarrow> world" where
  "connectToMediaWebSocket mediaUrl sid stid signalingSocket conn w =
     (let w1 = console ''[Media] Connecting for session'' w;
          mediaWs = length (sockets w1);
          w2 = new_WebSocket mediaUrl (MediaWs mediaUrl sid stid signalingSocket conn) w1;
          w3 = set_socket Media conn (Some mediaWs) w2
      in set_state Media conn ''connecting'' w3)"

definition media_on_open ::
  "keyed_hash \<Rightarrow> config \<Rightarrow> addr \<Rightarrow> string \<Rightarrow> string \<Rightarrow> addr \<Rightarrow> world \<Rightarrow> outcome" where
  "media_on_open hmac cfg mediaWs sid stid conn w =
     (if \<not> shouldReconnect (conns w ! conn) then Returns (ws_close mediaWs w)
      else
        case generateSignature hmac cfg sid stid of
          Inl e \<Rightarrow> Throws e w
        | Inr signature \<Rightarrow>
            Returns (set_state Media conn ''authenticated''
              (ws_send mediaWs (media_handshake sid stid signature)
                (console ''[Media] Sending data handshake...'' w))))"

definition media_on_error :: "addr \<Rightarrow> world \<Rightarrow> world" where
  "media_on_error conn w = set_state Media conn ''error'' (console ''[Media] Error'' w)"

subsection \<open>Teardown\<close>

text \<open>One round of the loop of \<^verbatim>\<open>cleanupConnection\<close> over \<^verbatim>\<open>['signaling', 'media']\<close>.\<close>

definition cleanup_channel :: "chan_type \<Rightarrow> addr \<Rightarrow> world \<Rightarrow> world" where
  "cleanup_channel ty conn w =
     (case socket (chan ty (conns w ! conn)) of
        None \<Rightarrow> w
      | Some ws \<Rightarrow>
          (let w1 = set_state ty conn ''closed'' w in
           if readyState (sockets w1 ! ws) = CONNECTING then ws_once_open_close ws w1
           else ws_close ws w1))"

definition cleanupConnection :: "string \<Rightarrow> world \<Rightarrow> world" where
  "cleanupConnection sid w =
     (case map_get (activeConnections w) sid of
        None \<Rightarrow> w
      | Some conn \<Rightarrow>
          (let w1 = console ''[Cleanup] Closing connections for session'' w;
               w2 = set_shouldReconnect conn False w1;
               w3 = cleanup_channel Signaling conn w2;
               w4 = cleanup_channel Media conn w3
           in w4\<lparr>activeConnections := map_delete (activeConnections w4) sid\<rparr>))"

subsection \<open>The signaling socket\<close>

definition new_conn :: "string \<Rightarrow> string \<Rightarrow> string \<Rightarrow> conn" where
  "new_conn sid stid urls =
     \<lparr>sessionId = sid, streamId = stid, serverUrls = urls, shouldReconnect = True,
      signaling = \<lparr>socket = None, state = ''connecting'', lastKeepAlive = None\<rparr>,
      media = \<lparr>socket = None, state = ''idle'', lastKeepAlive = None\<rparr>\<rparr>"

text \<open>\<^verbatim>\<open>serverUrls\<close> is \<^verbatim>\<open>undefined\<close> (\<open>None\<close>) or a string; \<^verbatim>\<open>existingConn\<close> is \<^verbatim>\<open>undefined\<close> when
  the caller passes three arguments. A new entry is allocated at the next free address
  of the heap, as the object literal of the source is.\<close>

definition connectToSignalingWebSocket ::
  "string \<Rightarrow> string \<Rightarrow> string option \<Rightarrow> addr option \<Rightarrow> world \<Rightarrow> world" where
  "connectToSignalingWebSocket sid stid urls existingConn w =
     (let w1 = console ''[Signaling] Connecting for session'' w in
      case urls of
        None \<Rightarrow> console ''[Signaling] Invalid WebSocket URL'' w1
      | Some u \<Rightarrow>
          if u = [] \<or> take 2 u \<noteq> ''ws'' then console ''[Signaling] Invalid WebSocket URL'' w1
          else
            (let signalingWs = length (sockets w1);
                 conn = (case existingConn of Some c \<Rightarrow> c | None \<Rightarrow> length (conns w1));
                 w2 = new_WebSocket (Some (JStr u)) (SignalingWs sid stid conn) w1;
                 w3 = (case existingConn of
                         Some c \<Rightarrow> w2
                       | None \<Rightarrow>
                           w2\<lparr>conns := conns w2 @ [new_conn sid stid u],
                              activeConnections := map_set (activeConnections w2) sid conn\<rparr>);
                 w4 = set_socket Signaling conn (Some signalingWs) w3
             in set_state Signaling conn ''connecting'' w4))"

definition signaling_handshake :: "string \<Rightarrow> string \<Rightarrow> string \<Rightarrow> json" where
  "signaling_handshake sid stid signature =
     JObj [(''msg_type'', JNum 1),
           (''meeting_uuid'', JStr sid),
           (''session_id'', JStr sid),
           (''rtms_stream_id'', JStr stid),
           (''signature'', JStr signature)]"

definition signaling_on_open ::
  "keyed_hash \<Rightarrow> config \<Rightarrow> addr \<Rightarrow> string \<Rightarrow> string \<Rightarrow> addr \<Rightarrow> world \<Rightarrow> outcome" where
  "signaling_on_open hmac cfg signalingWs sid stid conn w =
     (if \<not> shouldReconnect (conns w ! conn) then Returns (ws_close signalingWs w)
      else
        case generateSignature hmac cfg sid stid of
          Inl e \<Rightarrow> Throws e w
        | Inr signature \<Rightarrow>
            Returns (set_state Signaling conn ''authenticated''
              (ws_send signalingWs (signaling_handshake sid stid signature)
                (console ''[Signaling] Sending handshake...'' w))))"

definition event_subscription :: json where
  "event_subscription =
     JObj [(''msg_type'', JNum 5),
           (''events'', JArr [JObj [(''event_type'', JNum 2), (''subscribe'', JBool True)],
                              JObj [(''event_type'', JNum 3), (''subscribe'', JBool True)],
                              JObj [(''event_type'', JNum 4), (''subscribe'', JBool True)]])]"

text \<open>\<^verbatim>\<open>msg.media_server?.server_urls?.audio\<close>.\<close>

definition media_endpoint :: "json \<Rightarrow> jsval" where
  "media_endpoint msg = opt_member (opt_member (field msg ''media_server'') ''server_urls'') ''audio''"

text \<open>The inner \<^verbatim>\<open>switch (msg.event.event_type)\<close> of case 6, entered when \<^verbatim>\<open>msg.event\<close> is
  truthy.\<close>

definition signaling_event :: "json \<Rightarrow> world \<Rightarrow> world" where
  "signaling_event ev w =
     (let t = field ev ''event_type'' in
      if t = Some (JNum 1) then console ''[Event] First packet'' w
      else if t = Some (JNum 2) then console ''[Event] Active speaker'' w
      else if t = Some (JNum 3) then console ''[Event] Participant joined'' w
      else if t = Some (JNum 4) then console ''[Event] Participant left'' w
      else console ''[Event] Unknown event_type'' w)"

text \<open>The message handler of the signaling socket. Only \<^verbatim>\<open>JSON.parse\<close> stands inside the
  \<^verbatim>\<open>try\<close>; the dispatch is outside. \<^verbatim>\<open>Date.now()\<close> reads the clock.\<close>

definition signaling_on_message ::
  "addr \<Rightarrow> string \<Rightarrow> string \<Rightarrow> addr \<Rightarrow> wire \<Rightarrow> world \<Rightarrow> outcome" where
  "signaling_on_message signalingWs sid stid conn data w =
     (case data of
        Garbage \<Rightarrow> Returns (console ''[Signaling] Invalid JSON received'' w)
      | Json msg \<Rightarrow>
          (case get_member (Some msg) ''msg_type'' of
             Inl e \<Rightarrow> Throws e w
           | Inr t \<Rightarrow>
               if t = Some (JNum 2) then
                 (if field msg ''status_code'' = Some (JNum 0) then
                    (let mediaUrl = media_endpoint msg;
                         w1 = console ''[Signaling] Handshake OK - media URL'' w;
                         w2 = set_state Signaling conn ''ready'' w1;
                         w3 = connectToMediaWebSocket mediaUrl sid stid (Some signalingWs) conn w2
                     in Returns (ws_send signalingWs event_subscription w3))
                  else Returns (console ''[Signaling] Handshake failed'' w))
               else if t = Some (JNum 6) then
                 (case field msg ''event'' of
                    None \<Rightarrow> Returns w
                  | Some ev \<Rightarrow> if truthy (Some ev) then Returns (signaling_event ev w) else Returns w)
               else if t = Some (JNum 8) then
                 (let w1 = console ''[Signaling] Stream state changed'' w in
                  if field msg ''reason'' = Some (JNum 6) \<and> field msg ''state'' = Some (JNum 4)
                  then Returns (cleanupConnection sid w1)
                  else Returns w1)
               else if t = Some (JNum 9) then
                 Returns (console ''[Signaling] Session state changed'' w)
               else if t = Some (JNum 12) then
                 (let w1 = set_lastKeepAlive Signaling conn (Some (clock w)) w in
                  Returns (ws_send signalingWs (keep_alive_response msg) w1))
               else Returns (console ''[Signaling] Unhandled msg_type'' w)))"

definition signaling_on_close :: "string \<Rightarrow> string \<Rightarrow> addr \<Rightarrow> world \<Rightarrow> world" where
  "signaling_on_close sid stid conn w =
     (let w1 = console ''[Signaling] Closed'' w;
          w2 = set_state Signaling conn ''closed'' w1
      in if shouldReconnect (conns w2 ! conn)
         then setTimeout (ReconnectSignaling sid stid conn) 3000
                (console ''[Signaling] Reconnecting in 3s...'' w2)
         else w2)"

definition signaling_on_error :: "addr \<Rightarrow> world \<Rightarrow> world" where
  "signaling_on_error conn w = set_state Signaling conn ''error'' (console ''[Signaling] Error'' w)"

subsection \<open>The close handler of the media socket and the timers\<close>

text \<open>\<^verbatim>\<open>conn.signaling.socket?.readyState === WebSocket.OPEN\<close>.\<close>

definition socket_is_open :: "world \<Rightarrow> addr option \<Rightarrow> bool" where
  "socket_is_open w s = (case s of None \<Rightarrow> False | Some a \<Rightarrow> readyState (sockets w ! a) = OPEN)"

definition media_on_close :: "jsval \<Rightarrow> string \<Rightarrow> string \<Rightarrow> addr \<Rightarrow> world \<Rightarrow> world" where
  "media_on_close mediaUrl sid stid conn w =
     (let w1 = console ''[Media] Connection closed'' w;
          w2 = set_state Media conn ''closed'' w1
      in if \<not> shouldReconnect (conns w2 ! conn) then w2
         else if state (signaling (conns w2 ! conn)) = ''ready''
                 \<and> socket_is_open w2 (socket (signaling (conns w2 ! conn)))
         then setTimeout (ReconnectMedia mediaUrl sid stid conn) 3000
                (console ''[Media] Reconnecting in 3s...'' w2)
         else connectToSignalingWebSocket sid stid (Some (serverUrls (conns w2 ! conn))) (Some conn)
                (console ''[Media] Signaling not ready - restarting both connections...'' w2))"

text \<open>The two timer callbacks: the one of the media close handler, which connects at once,
  and the one of the signaling close handler, which reads \<^verbatim>\<open>conn.shouldReconnect\<close> first.\<close>

fun timer_callback :: "timer \<Rightarrow> world \<Rightarrow> world" where
  "timer_callback (ReconnectMedia mediaUrl sid stid conn) w =
     connectToMediaWebSocket mediaUrl sid stid (socket (signaling (conns w ! conn))) conn w"
| "timer_callback (ReconnectSignaling sid stid conn) w =
     (if shouldReconnect (conns w ! conn)
      then connectToSignalingWebSocket sid stid (Some (serverUrls (conns w ! conn))) (Some conn) w
      else w)"

subsection \<open>The webhook, the shutdown handler and the event loop\<close>

text \<open>The two branches of the webhook handler that reach the connection manager:
  \<^verbatim>\<open>session.rtms_started\<close> calls \<^verbatim>\<open>connectToSignalingWebSocket\<close> with three arguments,
  \<^verbatim>\<open>session.rtms_stopped\<close> calls \<^verbatim>\<open>cleanupConnection\<close>.\<close>

definition webhook_rtms_started :: "string \<Rightarrow> string \<Rightarrow> string option \<Rightarrow> world \<Rightarrow> world" where
  "webhook_rtms_started session_id rtms_stream_id server_urls w =
     connectToSignalingWebSocket session_id rtms_stream_id server_urls None
       (console ''[Webhook] RTMS started for session'' w)"

definition webhook_rtms_stopped :: "string \<Rightarrow> world \<Rightarrow> world" where
  "webhook_rtms_stopped session_id w =
     cleanupConnection session_id (console ''[Webhook] RTMS stopped for session'' w)"

text \<open>The loop of the SIGINT handler over the keys of the registry.\<close>

definition shutdown :: "world \<Rightarrow> world" where
  "shutdown w =
     foldl (\<lambda>w' k. cleanupConnection k w') (console ''[Shutdown] Cleaning up...'' w)
       (map_keys (activeConnections w))"

text \<open>What the event loop delivers: a webhook request, a socket event, the oldest pending
  timer, the passing of time, the interrupt signal.\<close>

datatype event =
    RtmsStarted string string "string option"
  | RtmsStopped string
  | WsOpen addr
  | WsMessage addr wire
  | WsClose addr
  | WsError addr
  | TimerFires
  | Elapse nat
  | Sigint

fun on_open :: "keyed_hash \<Rightarrow> config \<Rightarrow> addr \<Rightarrow> closure \<Rightarrow> world \<Rightarrow> outcome" where
  "on_open hmac cfg ws (SignalingWs sid stid conn) w = signaling_on_open hmac cfg ws sid stid conn w"
| "on_open hmac cfg ws (MediaWs mediaUrl sid stid signalingSocket conn) w =
     media_on_open hmac cfg ws sid stid conn w"

fun on_message :: "addr \<Rightarrow> closure \<Rightarrow> wire \<Rightarrow> world \<Rightarrow> outcome" where
  "on_message ws (SignalingWs sid stid conn) data w = signaling_on_message ws sid stid conn data w"
| "on_message ws (MediaWs mediaUrl sid stid signalingSocket conn) data w =
     Returns (handleMediaMessage data conn ws signalingSocket sid stid w)"

fun on_close :: "closure \<Rightarrow> world \<Rightarrow> world" where
  "on_close (SignalingWs sid stid conn) w = signaling_on_close sid stid conn w"
| "on_close (MediaWs mediaUrl sid stid signalingSocket conn) w = media_on_close mediaUrl sid stid conn w"

fun on_error :: "closure \<Rightarrow> world \<Rightarrow> world" where
  "on_error (SignalingWs sid stid conn) w = signaling_on_error conn w"
| "on_error (MediaWs mediaUrl sid stid signalingSocket conn) w = media_on_error conn w"

definition set_readyState :: "addr \<Rightarrow> readyState \<Rightarrow> world \<Rightarrow> world" where
  "set_readyState a r w = w\<lparr>sockets := (sockets w)[a := (sockets w ! a)\<lparr>readyState := r\<rparr>]\<rparr>"

text \<open>The listeners that \<^verbatim>\<open>cleanupConnection\<close> registered with \<^verbatim>\<open>once('open', ...)\<close> run after
  the open handler, each once.\<close>

definition once_open_listeners :: "addr \<Rightarrow> world \<Rightarrow> world" where
  "once_open_listeners a w =
     ((ws_close a) ^^ (onceOpenClose (sockets w ! a)))
       (w\<lparr>sockets := (sockets w)[a := (sockets w ! a)\<lparr>onceOpenClose := 0\<rparr>]\<rparr>)"

text \<open>One turn of the event loop. The socket library emits \<^verbatim>\<open>open\<close> on a connecting socket,
  \<^verbatim>\<open>message\<close> on an open or closing one, \<^verbatim>\<open>close\<close> and \<^verbatim>\<open>error\<close> on one that is not closed;
  an event for a socket in another state, or for no socket, does not happen and leaves
  the world as it is. An exception that leaves a handler is uncaught.\<close>

definition step :: "keyed_hash \<Rightarrow> config \<Rightarrow> event \<Rightarrow> world \<Rightarrow> outcome" where
  "step hmac cfg ev w =
     (case ev of
        RtmsStarted sid stid urls \<Rightarrow> Returns (webhook_rtms_started sid stid urls w)
      | RtmsStopped sid \<Rightarrow> Returns (webhook_rtms_stopped sid w)
      | WsOpen a \<Rightarrow>
          if a < length (sockets w) \<and> readyState (sockets w ! a) = CONNECTING then
            (case on_open hmac cfg a (handlers (sockets w ! a)) (set_readyState a OPEN w) of
               Throws e w' \<Rightarrow> Throws e w'
             | Returns w' \<Rightarrow> Returns (once_open_listeners a w'))
          else Returns w
      | WsMessage a data \<Rightarrow>
          if a < length (sockets w) \<and> readyState (sockets w ! a) \<in> {OPEN, CLOSING}
          then on_message a (handlers (sockets w ! a)) data w
          else Returns w
      | WsClose a \<Rightarrow>
          if a < length (sockets w) \<and> readyState (sockets w ! a) \<noteq> CLOSED
          then Returns (on_close (handlers (sockets w ! a)) (set_readyState a CLOSED w))
          else Returns w
      | WsError a \<Rightarrow>
          if a < length (sockets w) \<and> readyState (sockets w ! a) \<noteq> CLOSED
          then Returns (on_error (handlers (sockets w ! a)) w)
          else Returns w
      | TimerFires \<Rightarrow>
          (case timers w of
             [] \<Rightarrow> Returns w
           | (due, t) # rest \<Rightarrow>
               Returns (timer_callback t (w\<lparr>timers := rest, clock := max (clock w) due\<rparr>)))
      | Elapse ms \<Rightarrow> Returns (w\<lparr>clock := clock w + ms\<rparr>)
      | Sigint \<Rightarrow> Returns (shutdown w))"

text \<open>A run of the event loop from a world; it ends with the first uncaught exception.\<close>

fun run :: "keyed_hash \<Rightarrow> config \<Rightarrow> event list \<Rightarrow> world \<Rightarrow> outcome" where
  "run hmac cfg [] w = Returns w"
| "run hmac cfg (ev # evs) w =
     (case step hmac cfg ev w of
        Throws e w' \<Rightarrow> Throws e w'
      | Returns w' \<Rightarrow> run hmac cfg evs w')"

subsection \<open>What a world refers to\<close>

text \<open>The parts of a world that the handlers never change once they exist: the address
  and the closure of every socket, and the identity of every connection entry. Beside
  them, the signaling socket every entry points to and the callbacks of the pending
  timers.\<close>

definition closures :: "world \<Rightarrow> (jsval \<times> closure) list" where
  "closures w = map (\<lambda>s. (url s, handlers s)) (sockets w)"

definition identities :: "world \<Rightarrow> (string \<times> string \<times> string) list" where
  "identities w = map (\<lambda>c. (sessionId c, streamId c, serverUrls c)) (conns w)"

definition signaling_refs :: "world \<Rightarrow> addr option list" where
  "signaling_refs w = map (\<lambda>c. socket (signaling c)) (conns w)"

definition pending :: "world \<Rightarrow> timer list" where
  "pending w = map snd (timers w)"

text \<open>A world is well formed when the registry holds each session once and points to an
  entry of that session, every entry points to a signaling socket, every closure and
  every timer callback refers to an entry with the identifiers it was created with, the
  media closures hold a signaling socket, and every entry was created for a URL that
  passed the check of \<^verbatim>\<open>connectToSignalingWebSocket\<close>.\<close>

definition is_signaling :: "closure \<Rightarrow> bool" where
  "is_signaling h = (case h of SignalingWs sid stid c \<Rightarrow> True | MediaWs u sid stid sso c \<Rightarrow> False)"

definition ref_ok :: "world \<Rightarrow> string \<Rightarrow> string \<Rightarrow> addr \<Rightarrow> bool" where
  "ref_ok w sid stid c =
     (c < length (identities w) \<and> fst (identities w ! c) = sid \<and> fst (snd (identities w ! c)) = stid)"

definition sigsock_ok :: "world \<Rightarrow> addr option \<Rightarrow> bool" where
  "sigsock_ok w r =
     (case r of None \<Rightarrow> False | Some a \<Rightarrow> a < length (closures w) \<and> is_signaling (snd (closures w ! a)))"

fun closure_ok :: "world \<Rightarrow> jsval \<times> closure \<Rightarrow> bool" where
  "closure_ok w (u, SignalingWs sid stid c) = ref_ok w sid stid c"
| "closure_ok w (u, MediaWs mu sid stid sso c) = (ref_ok w sid stid c \<and> u = mu \<and> sigsock_ok w sso)"

fun timer_ok :: "world \<Rightarrow> timer \<Rightarrow> bool" where
  "timer_ok w (ReconnectMedia u sid stid c) = ref_ok w sid stid c"
| "timer_ok w (ReconnectSignaling sid stid c) = ref_ok w sid stid c"

definition entry_ok :: "world \<Rightarrow> string \<times> addr \<Rightarrow> bool" where
  "entry_ok w e = (snd e < length (identities w) \<and> fst (identities w ! snd e) = fst e)"

definition wf_world :: "world \<Rightarrow> bool" where
  "wf_world w =
     (distinct (map fst (activeConnections w))
      \<and> (\<forall>e \<in> set (activeConnections w). entry_ok w e)
      \<and> (\<forall>r \<in> set (signaling_refs w). sigsock_ok w r)
      \<and> (\<forall>h \<in> set (closures w). closure_ok w h)
      \<and> (\<forall>t \<in> set (pending w). timer_ok w t)
      \<and> (\<forall>i \<in> set (identities w). take 2 (snd (snd i)) = ''ws''))"

text \<open>Sockets and entries are only ever added.\<close>

definition grows :: "world \<Rightarrow> world \<Rightarrow> bool" where
  "grows w w' = ((\<exists>ys. closures w' = closures w @ ys) \<and> (\<exists>zs. identities w' = identities w @ zs))"

definition same_shape :: "world \<Rightarrow> world \<Rightarrow> bool" where
  "same_shape w w' =
     (closures w' = closures w \<and> identities w' = identities w
      \<and> signaling_refs w' = signaling_refs w \<and> pending w' = pending w
      \<and> activeConnections w' = activeConnections w)"

text \<open>The check \<^verbatim>\<open>!serverUrls || !serverUrls.startsWith('ws')\<close> of the signaling connect
  path, negated.\<close>

definition valid_url :: "string option \<Rightarrow> bool" where
  "valid_url urls = (case urls of None \<Rightarrow> False | Some u \<Rightarrow> u \<noteq> [] \<and> take 2 u = ''ws'')"

subsection \<open>Handshake responses in a run\<close>

text \<open>A signaling handshake response with status 0, and what the event loop makes of an
  event that delivers one to a signaling socket: the session of that socket and the media
  endpoint the response carries.\<close>

definition handshake_success :: "json \<Rightarrow> bool" where
  "handshake_success msg =
     (field msg ''msg_type'' = Some (JNum 2) \<and> field msg ''status_code'' = Some (JNum 0))"

fun accepted_handshake :: "world \<Rightarrow> event \<Rightarrow> (string \<times> jsval) option" where
  "accepted_handshake w (WsMessage a (Json msg)) =
     (if a < length (sockets w) \<and> readyState (sockets w ! a) \<in> {OPEN, CLOSING}
         \<and> handshake_success msg
      then (case handlers (sockets w ! a) of
              SignalingWs sid stid c \<Rightarrow> Some (sid, media_endpoint msg)
            | MediaWs u sid stid sso c \<Rightarrow> None)
      else None)"
| "accepted_handshake w ev = None"

text \<open>\<open>seen evs sid u m\<close>: in the run of \<open>evs\<close> from the start, a handshake response
  with status 0 for session \<open>sid\<close> carrying the endpoint \<open>u\<close> was delivered at a time
  when fewer than \<open>m + 1\<close> sockets had been created, so before the socket at address \<open>m\<close>
  existed.\<close>

definition seen :: "keyed_hash \<Rightarrow> config \<Rightarrow> event list \<Rightarrow> string \<Rightarrow> jsval \<Rightarrow> nat \<Rightarrow> bool" where
  "seen hmac cfg evs sid u m =
     (\<exists>i < length evs. \<exists>v. run hmac cfg (take i evs) boot = Returns v
        \<and> accepted_handshake v (evs ! i) = Some (sid, u) \<and> length (sockets v) \<le> m)"

definition upward :: "(string \<Rightarrow> jsval \<Rightarrow> nat \<Rightarrow> bool) \<Rightarrow> bool" where
  "upward P = (\<forall>sid u m m'. P sid u m \<longrightarrow> m \<le> m' \<longrightarrow> P sid u m')"

definition media_inv :: "(string \<Rightarrow> jsval \<Rightarrow> nat \<Rightarrow> bool) \<Rightarrow> world \<Rightarrow> bool" where
  "media_inv P w =
     ((\<forall>m < length (closures w). \<forall>u sid stid sso c.
          snd (closures w ! m) = MediaWs u sid stid sso c \<longrightarrow> P sid u m)
      \<and> (\<forall>t \<in> set (pending w). \<forall>u sid stid c.
          t = ReconnectMedia u sid stid c \<longrightarrow> P sid u (length (closures w))))"

subsection \<open>Example runs\<close>

text \<open>A session "s" with stream "t": the webhook starts it, the signaling socket (address
  0) opens and receives a handshake response with status 0 and the media endpoint
  "wss://m", and the media socket (address 1) opens.\<close>

definition handshake_response :: wire where
  "handshake_response =
     Json (JObj [(''msg_type'', JNum 2), (''status_code'', JNum 0),
                 (''media_server'', JObj [(''server_urls'', JObj [(''audio'', JStr ''wss://m'')])])])"

definition session_up :: "event list" where
  "session_up =
     [RtmsStarted ''s'' ''t'' (Some ''wss://z''), WsOpen 0, WsMessage 0 handshake_response, WsOpen 1]"

definition world_of :: "outcome \<Rightarrow> world" where
  "world_of r = (case r of Returns w \<Rightarrow> w | Throws e w \<Rightarrow> w)"

definition live :: world where
  "live = world_of (run example_hash example_config session_up boot)"








text \<open>The example session after its media socket closed, the webhook reported the stop of
  the session, and three seconds passed; and the same after the pending timer fired.\<close>

definition stopped :: world where
  "stopped = world_of (run example_hash example_config
     (session_up @ [WsClose 1, RtmsStopped ''s'', Elapse 3000]) boot)"

definition stopped_then_fired :: world where
  "stopped_then_fired = world_of (run example_hash example_config
     (session_up @ [WsClose 1, RtmsStopped ''s'', Elapse 3000, TimerFires]) boot)"

section \<open>Properties\<close>

subsection \<open>The signature generator\<close>













subsection \<open>Invariants of the event loop\<close>

lemmas prim_defs = console_def conn_update_def set_state_def set_socket_def set_lastKeepAlive_def
  set_shouldReconnect_def new_WebSocket_def ws_send_def ws_close_def ws_once_open_close_def
  setTimeout_def set_readyState_def

lemma map_update_same: "(\<And>x. f (g x) = f x) \<Longrightarrow> map f (xs[a := g (xs ! a)]) = map f xs"
  by (cases "a < length xs") (simp_all add: map_update list_update_same_conv list_update_beyond)

lemma conn_update_proj:
  "(\<And>x. p (f x) = p x) \<Longrightarrow> map p (conns (conn_update c f w)) = map p (conns w)"
  unfolding conn_update_def by (simp add: map_update_same [where g = f])

lemma sockets_update_proj:
  "(\<And>x. p (g x) = p x) \<Longrightarrow> map p ((sockets w)[a := g (sockets w ! a)]) = map p (sockets w)"
  by (rule map_update_same)

lemma chan_update_ids [simp]:
  "sessionId (chan_update ty f c) = sessionId c"
  "streamId (chan_update ty f c) = streamId c"
  "serverUrls (chan_update ty f c) = serverUrls c"
  "shouldReconnect (chan_update ty f c) = shouldReconnect c"
  by (cases ty; simp)+

lemma closures_prims [simp]:
  "closures (console l w) = closures w"
  "closures (conn_update c f w) = closures w"
  "closures (ws_send a m w) = closures w"
  "closures (ws_close a w) = closures w"
  "closures (ws_once_open_close a w) = closures w"
  "closures (set_readyState a r w) = closures w"
  "closures (setTimeout t ms w) = closures w"
  "closures (new_WebSocket u h w) = closures w @ [(u, h)]"
  by (simp_all add: closures_def console_def conn_update_def ws_send_def setTimeout_def
        new_WebSocket_def ws_close_def ws_once_open_close_def set_readyState_def
        sockets_update_proj [where g = "\<lambda>s. s\<lparr>readyState := r'\<rparr>" for r']
        sockets_update_proj [where g = "\<lambda>s. s\<lparr>onceOpenClose := n\<rparr>" for n])

lemma closures_sets [simp]:
  "closures (set_state ty c s w) = closures w"
  "closures (set_socket ty c x w) = closures w"
  "closures (set_lastKeepAlive ty c t w) = closures w"
  "closures (set_shouldReconnect c b w) = closures w"
  by (simp_all add: set_state_def set_socket_def set_lastKeepAlive_def set_shouldReconnect_def)

lemma identities_prims [simp]:
  "identities (console l w) = identities w"
  "identities (ws_send a m w) = identities w"
  "identities (ws_close a w) = identities w"
  "identities (ws_once_open_close a w) = identities w"
  "identities (set_readyState a r w) = identities w"
  "identities (setTimeout t ms w) = identities w"
  "identities (new_WebSocket u h w) = identities w"
  "identities (set_state ty c s w) = identities w"
  "identities (set_socket ty c x w) = identities w"
  "identities (set_lastKeepAlive ty c t' w) = identities w"
  "identities (set_shouldReconnect c b w) = identities w"
  by (simp_all add: identities_def console_def ws_send_def setTimeout_def
        new_WebSocket_def ws_close_def ws_once_open_close_def set_readyState_def
        set_state_def set_socket_def set_lastKeepAlive_def set_shouldReconnect_def conn_update_proj)

lemma signaling_refs_prims [simp]:
  "signaling_refs (console l w) = signaling_refs w"
  "signaling_refs (ws_send a m w) = signaling_refs w"
  "signaling_refs (ws_close a w) = signaling_refs w"
  "signaling_refs (ws_once_open_close a w) = signaling_refs w"
  "signaling_refs (set_readyState a r w) = signaling_refs w"
  "signaling_refs (setTimeout t ms w) = signaling_refs w"
  "signaling_refs (new_WebSocket u h w) = signaling_refs w"
  "signaling_refs (set_state ty c s w) = signaling_refs w"
  "signaling_refs (set_socket Media c x w) = signaling_refs w"
  "signaling_refs (set_socket Signaling c x w) = (signaling_refs w)[c := x]"
  "signaling_refs (set_lastKeepAlive ty c t' w) = signaling_refs w"
  "signaling_refs (set_shouldReconnect c b w) = signaling_refs w"
  by (cases ty; simp add: signaling_refs_def console_def ws_send_def setTimeout_def
        new_WebSocket_def ws_close_def ws_once_open_close_def set_readyState_def
        set_state_def set_socket_def set_lastKeepAlive_def set_shouldReconnect_def conn_update_proj;
      simp add: conn_update_def map_update)+

lemma pending_prims [simp]:
  "pending (console l w) = pending w"
  "pending (conn_update c f w) = pending w"
  "pending (ws_send a m w) = pending w"
  "pending (ws_close a w) = pending w"
  "pending (ws_once_open_close a w) = pending w"
  "pending (set_readyState a r w) = pending w"
  "pending (setTimeout t ms w) = pending w @ [t]"
  "pending (new_WebSocket u h w) = pending w"
  "pending (set_state ty c s w) = pending w"
  "pending (set_socket ty c x w) = pending w"
  "pending (set_lastKeepAlive ty c t' w) = pending w"
  "pending (set_shouldReconnect c b w) = pending w"
  by (simp_all add: pending_def prim_defs)

lemma registry_prims [simp]:
  "activeConnections (console l w) = activeConnections w"
  "activeConnections (conn_update c f w) = activeConnections w"
  "activeConnections (ws_send a m w) = activeConnections w"
  "activeConnections (ws_close a w) = activeConnections w"
  "activeConnections (ws_once_open_close a w) = activeConnections w"
  "activeConnections (set_readyState a r w) = activeConnections w"
  "activeConnections (setTimeout t ms w) = activeConnections w"
  "activeConnections (new_WebSocket u h w) = activeConnections w"
  "activeConnections (set_state ty c s w) = activeConnections w"
  "activeConnections (set_socket ty c x w) = activeConnections w"
  "activeConnections (set_lastKeepAlive ty c t' w) = activeConnections w"
  "activeConnections (set_shouldReconnect c b w) = activeConnections w"
  by (simp_all add: prim_defs)

lemma grows_refl [simp]: "grows w w"
  by (simp add: grows_def)

lemma grows_trans: "grows a b \<Longrightarrow> grows b c \<Longrightarrow> grows a c"
  by (auto simp: grows_def)

lemma grows_eqI: "closures w' = closures w \<Longrightarrow> identities w' = identities w \<Longrightarrow> grows w w'"
  by (simp add: grows_def)

lemma ref_ok_grows: "ref_ok w sid stid c \<Longrightarrow> grows w w' \<Longrightarrow> ref_ok w' sid stid c"
  by (auto simp: ref_ok_def grows_def nth_append)

lemma sigsock_ok_grows: "sigsock_ok w r \<Longrightarrow> grows w w' \<Longrightarrow> sigsock_ok w' r"
  by (auto simp: sigsock_ok_def grows_def nth_append split: option.splits)

lemma closure_ok_grows: "closure_ok w h \<Longrightarrow> grows w w' \<Longrightarrow> closure_ok w' h"
  by (cases "(w, h)" rule: closure_ok.cases) (auto intro: ref_ok_grows sigsock_ok_grows)

lemma timer_ok_grows: "timer_ok w t \<Longrightarrow> grows w w' \<Longrightarrow> timer_ok w' t"
  by (cases t) (auto intro: ref_ok_grows)

lemma entry_ok_grows: "entry_ok w e \<Longrightarrow> grows w w' \<Longrightarrow> entry_ok w' e"
  by (auto simp: entry_ok_def grows_def nth_append)

lemma map_keys_map_set:
  "map fst (map_set r k v) = (if k \<in> set (map fst r) then map fst r else map fst r @ [k])"
  by (induction r) (auto split: if_splits)

lemma distinct_map_set: "distinct (map fst r) \<Longrightarrow> distinct (map fst (map_set r k v))"
  by (simp add: map_keys_map_set)

lemma set_map_set: "set (map_set r k v) \<subseteq> insert (k, v) (set r)"
  by (induction r) (auto split: if_splits)


lemma distinct_map_delete: "distinct (map fst r) \<Longrightarrow> distinct (map fst (map_delete r k))"
  by (simp add: map_delete_def distinct_map_filter)

lemma set_map_delete: "set (map_delete r k) \<subseteq> set r"
  by (auto simp: map_delete_def)

lemma wf_worldI:
  assumes "wf_world w" "grows w w'"
    and "distinct (map fst (activeConnections w'))"
    and "\<And>e. e \<in> set (activeConnections w') \<Longrightarrow> e \<in> set (activeConnections w) \<or> entry_ok w' e"
    and "\<And>r. r \<in> set (signaling_refs w') \<Longrightarrow> r \<in> set (signaling_refs w) \<or> sigsock_ok w' r"
    and "\<And>h. h \<in> set (closures w') \<Longrightarrow> h \<in> set (closures w) \<or> closure_ok w' h"
    and "\<And>t. t \<in> set (pending w') \<Longrightarrow> t \<in> set (pending w) \<or> timer_ok w' t"
    and "\<And>i. i \<in> set (identities w') \<Longrightarrow> i \<in> set (identities w) \<or> take 2 (snd (snd i)) = ''ws''"
  shows "wf_world w'"
  unfolding wf_world_def
proof (intro conjI ballI)
  show "distinct (map fst (activeConnections w'))" by fact
next
  fix e assume "e \<in> set (activeConnections w')"
  with assms(4) have "e \<in> set (activeConnections w) \<or> entry_ok w' e" by blast
  then show "entry_ok w' e"
    using assms(1,2) entry_ok_grows unfolding wf_world_def by blast
next
  fix r assume "r \<in> set (signaling_refs w')"
  with assms(5) have "r \<in> set (signaling_refs w) \<or> sigsock_ok w' r" by blast
  then show "sigsock_ok w' r"
    using assms(1,2) sigsock_ok_grows unfolding wf_world_def by blast
next
  fix h assume "h \<in> set (closures w')"
  with assms(6) have "h \<in> set (closures w) \<or> closure_ok w' h" by blast
  then show "closure_ok w' h"
    using assms(1,2) closure_ok_grows unfolding wf_world_def by blast
next
  fix t assume "t \<in> set (pending w')"
  with assms(7) have "t \<in> set (pending w) \<or> timer_ok w' t" by blast
  then show "timer_ok w' t"
    using assms(1,2) timer_ok_grows unfolding wf_world_def by blast
next
  fix i assume "i \<in> set (identities w')"
  with assms(8) have "i \<in> set (identities w) \<or> take 2 (snd (snd i)) = ''ws''" by blast
  then show "take 2 (snd (snd i)) = ''ws''"
    using assms(1) unfolding wf_world_def by blast
qed

lemma same_shape_refl [simp]: "same_shape w w"
  by (simp add: same_shape_def)

lemma same_shape_trans: "same_shape a b \<Longrightarrow> same_shape b c \<Longrightarrow> same_shape a c"
  by (simp add: same_shape_def)

lemma same_shape_prims [simp]:
  "same_shape w (console l w)"
  "same_shape w (ws_send a m w)"
  "same_shape w (ws_close a w)"
  "same_shape w (ws_once_open_close a w)"
  "same_shape w (set_readyState a r w)"
  "same_shape w (set_state ty c s w)"
  "same_shape w (set_socket Media c x w)"
  "same_shape w (set_lastKeepAlive ty c t' w)"
  "same_shape w (set_shouldReconnect c b w)"
  by (simp_all add: same_shape_def)

lemma same_shape_wf: "same_shape w w' \<Longrightarrow> wf_world w \<Longrightarrow> wf_world w'"
  by (rule wf_worldI [of w w']) (auto simp: same_shape_def wf_world_def intro: grows_eqI)

lemma same_shape_cong:
  "same_shape w w' \<Longrightarrow> closures w' = closures w"
  "same_shape w w' \<Longrightarrow> identities w' = identities w"
  "same_shape w w' \<Longrightarrow> signaling_refs w' = signaling_refs w"
  "same_shape w w' \<Longrightarrow> pending w' = pending w"
  "same_shape w w' \<Longrightarrow> activeConnections w' = activeConnections w"
  by (simp_all add: same_shape_def)

lemma cleanup_channel_shape [simp]: "same_shape w (cleanup_channel ty c w)"
  by (simp add: cleanup_channel_def same_shape_def Let_def split: option.splits)

lemma cleanupConnection_shape:
  "closures (cleanupConnection sid w) = closures w"
  "identities (cleanupConnection sid w) = identities w"
  "signaling_refs (cleanupConnection sid w) = signaling_refs w"
  "pending (cleanupConnection sid w) = pending w"
  "activeConnections (cleanupConnection sid w) = map_delete (activeConnections w) sid"
proof -
  have *: "same_shape w (cleanup_channel Media c (cleanup_channel Signaling c
             (set_shouldReconnect c False (console l w))))" for c l
    by (meson same_shape_trans same_shape_prims cleanup_channel_shape)
  have del: "map_get r sid = None \<Longrightarrow> map_delete r sid = r" for r
    by (induction r) (auto simp: map_get_def map_delete_def split: if_splits)
  show "closures (cleanupConnection sid w) = closures w"
    "identities (cleanupConnection sid w) = identities w"
    "signaling_refs (cleanupConnection sid w) = signaling_refs w"
    "pending (cleanupConnection sid w) = pending w"
    "activeConnections (cleanupConnection sid w) = map_delete (activeConnections w) sid"
    using * del
    by (auto simp: cleanupConnection_def Let_def closures_def identities_def signaling_refs_def
          pending_def same_shape_def split: option.splits)
qed

lemma length_closures [simp]: "length (closures w) = length (sockets w)"
  by (simp add: closures_def)

lemma length_identities [simp]: "length (identities w) = length (conns w)"
  by (simp add: identities_def)

lemma length_signaling_refs [simp]: "length (signaling_refs w) = length (conns w)"
  by (simp add: signaling_refs_def)

lemma connectToMediaWebSocket_shape:
  "closures (connectToMediaWebSocket u sid stid sso c w) = closures w @ [(u, MediaWs u sid stid sso c)]"
  "identities (connectToMediaWebSocket u sid stid sso c w) = identities w"
  "signaling_refs (connectToMediaWebSocket u sid stid sso c w) = signaling_refs w"
  "pending (connectToMediaWebSocket u sid stid sso c w) = pending w"
  "activeConnections (connectToMediaWebSocket u sid stid sso c w) = activeConnections w"
  by (simp_all add: connectToMediaWebSocket_def Let_def)

lemma connectToSignalingWebSocket_invalid:
  "\<not> valid_url urls \<Longrightarrow> same_shape w (connectToSignalingWebSocket sid stid urls ex w)"
  by (auto simp: connectToSignalingWebSocket_def valid_url_def Let_def same_shape_def
        split: option.splits)

lemma connectToSignalingWebSocket_reuse:
  assumes "valid_url (Some u)"
  shows "closures (connectToSignalingWebSocket sid stid (Some u) (Some c) w)
           = closures w @ [(Some (JStr u), SignalingWs sid stid c)]"
    "identities (connectToSignalingWebSocket sid stid (Some u) (Some c) w) = identities w"
    "signaling_refs (connectToSignalingWebSocket sid stid (Some u) (Some c) w)
           = (signaling_refs w)[c := Some (length (sockets w))]"
    "pending (connectToSignalingWebSocket sid stid (Some u) (Some c) w) = pending w"
    "activeConnections (connectToSignalingWebSocket sid stid (Some u) (Some c) w) = activeConnections w"
  using assms
  by (simp_all add: connectToSignalingWebSocket_def valid_url_def Let_def)
     (simp_all add: console_def new_WebSocket_def)

lemma map_update_last: "(map f xs @ [a])[length xs := b] = map f xs @ [b]"
  by (simp add: list_update_append)

lemma connectToSignalingWebSocket_fresh:
  assumes "valid_url (Some u)"
  shows "closures (connectToSignalingWebSocket sid stid (Some u) None w)
           = closures w @ [(Some (JStr u), SignalingWs sid stid (length (conns w)))]"
    "identities (connectToSignalingWebSocket sid stid (Some u) None w) = identities w @ [(sid, stid, u)]"
    "signaling_refs (connectToSignalingWebSocket sid stid (Some u) None w)
           = signaling_refs w @ [Some (length (sockets w))]"
    "pending (connectToSignalingWebSocket sid stid (Some u) None w) = pending w"
    "activeConnections (connectToSignalingWebSocket sid stid (Some u) None w)
           = map_set (activeConnections w) sid (length (conns w))"
  using assms
  by (simp_all add: connectToSignalingWebSocket_def valid_url_def Let_def)
     (simp_all add: console_def new_WebSocket_def closures_def identities_def signaling_refs_def
        pending_def set_state_def set_socket_def conn_update_def new_conn_def map_update
        map_update_last)

lemma grows_appendI:
  "closures w' = closures w @ ys \<Longrightarrow> identities w' = identities w @ zs \<Longrightarrow> grows w w'"
  by (auto simp: grows_def)

lemma same_shape_grows: "same_shape w w' \<Longrightarrow> grows w w'"
  by (simp add: same_shape_def grows_def)

lemma grows_connectToMedia: "grows w (connectToMediaWebSocket u sid stid sso c w)"
  by (simp add: grows_def connectToMediaWebSocket_shape)

lemma wf_connectToMedia:
  assumes "wf_world w" "ref_ok w sid stid c" "sigsock_ok w sso"
  shows "wf_world (connectToMediaWebSocket u sid stid sso c w)"
proof (rule wf_worldI [OF assms(1) grows_connectToMedia])
  fix h assume "h \<in> set (closures (connectToMediaWebSocket u sid stid sso c w))"
  then show "h \<in> set (closures w) \<or> closure_ok (connectToMediaWebSocket u sid stid sso c w) h"
    using ref_ok_grows [OF assms(2) grows_connectToMedia]
      sigsock_ok_grows [OF assms(3) grows_connectToMedia]
    by (auto simp: connectToMediaWebSocket_shape)
qed (use assms(1) in \<open>auto simp: connectToMediaWebSocket_shape wf_world_def\<close>)

lemma grows_connectToSignaling: "grows w (connectToSignalingWebSocket sid stid urls ex w)"
proof (cases "valid_url urls")
  case False
  then show ?thesis by (simp add: connectToSignalingWebSocket_invalid same_shape_grows)
next
  case True
  then obtain u where u: "urls = Some u" by (auto simp: valid_url_def split: option.splits)
  show ?thesis
    using True unfolding u
    by (cases ex) (simp_all add: grows_def connectToSignalingWebSocket_fresh connectToSignalingWebSocket_reuse)
qed

lemma wf_connectToSignaling:
  assumes wf: "wf_world w" and ex: "\<And>c. ex = Some c \<Longrightarrow> ref_ok w sid stid c"
  shows "wf_world (connectToSignalingWebSocket sid stid urls ex w)"
proof (cases "valid_url urls")
  case False
  then show ?thesis
    using wf by (meson connectToSignalingWebSocket_invalid same_shape_wf)
next
  case True
  then obtain u where u: "urls = Some u" by (auto simp: valid_url_def split: option.splits)
  have v: "valid_url (Some u)" using True u by simp
  have ws: "take 2 u = ''ws''" using v by (simp add: valid_url_def)
  let ?w' = "connectToSignalingWebSocket sid stid (Some u) ex w"
  have g: "grows w ?w'" by (rule grows_connectToSignaling)
  show ?thesis
    unfolding u
  proof (cases ex)
    case None
    note sh = connectToSignalingWebSocket_fresh [OF v, of sid stid w]
    show "wf_world ?w'"
      unfolding None
    proof (rule wf_worldI [OF wf g [unfolded None]])
      show "distinct (map fst (activeConnections (connectToSignalingWebSocket sid stid (Some u) None w)))"
        using wf by (simp add: sh distinct_map_set wf_world_def)
    next
      fix e assume "e \<in> set (activeConnections (connectToSignalingWebSocket sid stid (Some u) None w))"
      then have "e \<in> set (activeConnections w) \<or> e = (sid, length (conns w))"
        using set_map_set [of "activeConnections w" sid "length (conns w)"] by (auto simp: sh)
      then show "e \<in> set (activeConnections w) \<or> entry_ok (connectToSignalingWebSocket sid stid (Some u) None w) e"
        by (auto simp: entry_ok_def sh nth_append)
    next
      fix r assume "r \<in> set (signaling_refs (connectToSignalingWebSocket sid stid (Some u) None w))"
      then show "r \<in> set (signaling_refs w) \<or> sigsock_ok (connectToSignalingWebSocket sid stid (Some u) None w) r"
        by (auto simp: sh sigsock_ok_def is_signaling_def nth_append)
    next
      fix h assume "h \<in> set (closures (connectToSignalingWebSocket sid stid (Some u) None w))"
      then show "h \<in> set (closures w) \<or> closure_ok (connectToSignalingWebSocket sid stid (Some u) None w) h"
        by (auto simp: sh ref_ok_def nth_append)
    next
      fix t assume "t \<in> set (pending (connectToSignalingWebSocket sid stid (Some u) None w))"
      then show "t \<in> set (pending w) \<or> timer_ok (connectToSignalingWebSocket sid stid (Some u) None w) t"
        by (simp add: sh)
    next
      fix i assume "i \<in> set (identities (connectToSignalingWebSocket sid stid (Some u) None w))"
      then show "i \<in> set (identities w) \<or> take 2 (snd (snd i)) = ''ws''"
        using ws by (auto simp: sh)
    qed
  next
    case (Some c)
    note sh = connectToSignalingWebSocket_reuse [OF v, of sid stid c w]
    have r: "ref_ok w sid stid c" using ex Some by simp
    show "wf_world ?w'"
      unfolding Some
    proof (rule wf_worldI [OF wf g [unfolded Some]])
      fix r' assume "r' \<in> set (signaling_refs (connectToSignalingWebSocket sid stid (Some u) (Some c) w))"
      then have "r' \<in> set (signaling_refs w) \<or> r' = Some (length (sockets w))"
        using set_update_subset_insert [of "signaling_refs w" c "Some (length (sockets w))"]
        by (auto simp: sh)
      then show "r' \<in> set (signaling_refs w) \<or> sigsock_ok (connectToSignalingWebSocket sid stid (Some u) (Some c) w) r'"
        by (auto simp: sh sigsock_ok_def is_signaling_def nth_append)
    next
      fix h assume "h \<in> set (closures (connectToSignalingWebSocket sid stid (Some u) (Some c) w))"
      then show "h \<in> set (closures w) \<or> closure_ok (connectToSignalingWebSocket sid stid (Some u) (Some c) w) h"
        using ref_ok_grows [OF r g [unfolded Some]] by (auto simp: sh)
    qed (use wf in \<open>auto simp: sh wf_world_def\<close>)
  qed
qed

lemma wf_cleanupConnection: "wf_world w \<Longrightarrow> wf_world (cleanupConnection sid w)"
proof (rule wf_worldI [of w])
  assume wf: "wf_world w"
  show "grows w (cleanupConnection sid w)"
    by (simp add: grows_def cleanupConnection_shape)
  show "distinct (map fst (activeConnections (cleanupConnection sid w)))"
    using wf by (simp add: cleanupConnection_shape distinct_map_delete wf_world_def)
  show "e \<in> set (activeConnections w) \<or> entry_ok (cleanupConnection sid w) e"
    if "e \<in> set (activeConnections (cleanupConnection sid w))" for e
    using that set_map_delete [of "activeConnections w" sid] by (auto simp: cleanupConnection_shape)
qed (simp_all add: cleanupConnection_shape)

lemma grows_cleanupConnection: "grows w (cleanupConnection sid w)"
  by (simp add: grows_def cleanupConnection_shape)

lemma media_inv_same:
  "closures w' = closures w \<Longrightarrow> pending w' = pending w \<Longrightarrow> media_inv P w' = media_inv P w"
  unfolding media_inv_def by (simp only:)

lemma media_inv_same_shape: "same_shape w w' \<Longrightarrow> media_inv P w' = media_inv P w"
  unfolding same_shape_def by (rule media_inv_same) blast+

lemma media_inv_drop:
  "media_inv P w \<Longrightarrow> closures w' = closures w \<Longrightarrow> set (pending w') \<subseteq> set (pending w) \<Longrightarrow> media_inv P w'"
  unfolding media_inv_def by (simp only: subset_iff) blast

lemma closures_snoc_nth [simp]: "(closures w @ [h]) ! length (sockets w) = h"
  by (simp add: nth_append)

lemma identities_snoc_nth [simp]: "(identities w @ [i]) ! length (conns w) = i"
  by (simp add: nth_append)

lemma media_inv_append:
  assumes inv: "media_inv P w" and up: "upward P"
    and cl: "closures w' = closures w @ [h]" and pe: "pending w' = pending w"
    and new: "\<And>u sid stid sso c. snd h = MediaWs u sid stid sso c \<Longrightarrow> P sid u (length (closures w))"
  shows "media_inv P w'"
  unfolding media_inv_def
proof (intro conjI allI impI ballI)
  fix m u sid stid sso c
  assume m: "m < length (closures w')" and h: "snd (closures w' ! m) = MediaWs u sid stid sso c"
  show "P sid u m"
  proof (cases "m < length (closures w)")
    case True
    then have "snd (closures w ! m) = MediaWs u sid stid sso c"
      using h by (simp add: cl nth_append)
    with inv True show ?thesis unfolding media_inv_def by blast
  next
    case False
    then have "m = length (closures w)" using m by (simp add: cl)
    then show ?thesis using h new by (simp add: cl)
  qed
next
  fix t u sid stid c
  assume "t \<in> set (pending w')" and "t = ReconnectMedia u sid stid c"
  then have "P sid u (length (closures w))"
    using inv unfolding media_inv_def pe by blast
  moreover have "length (closures w) \<le> length (closures w')" by (simp add: cl)
  ultimately show "P sid u (length (closures w'))"
    using up unfolding upward_def by blast
qed

lemma media_inv_connectToMedia:
  assumes "media_inv P w" "upward P" "P sid u (length (sockets w))"
  shows "media_inv P (connectToMediaWebSocket u sid stid sso c w)"
  by (rule media_inv_append [OF assms(1,2) connectToMediaWebSocket_shape(1) connectToMediaWebSocket_shape(4)])
     (use assms(3) in simp)

lemma media_inv_connectToSignaling:
  assumes "media_inv P w" "upward P"
  shows "media_inv P (connectToSignalingWebSocket sid stid urls ex w)"
proof (cases "valid_url urls")
  case False
  then show ?thesis
    using assms(1) by (simp add: media_inv_same_shape [OF connectToSignalingWebSocket_invalid])
next
  case True
  then obtain u where u: "urls = Some u" by (auto simp: valid_url_def split: option.splits)
  have v: "valid_url (Some u)" using True u by simp
  show ?thesis
    unfolding u
  proof (cases ex)
    case None
    show "media_inv P (connectToSignalingWebSocket sid stid (Some u) ex w)"
      unfolding None
      by (rule media_inv_append [OF assms connectToSignalingWebSocket_fresh(1) [OF v]
            connectToSignalingWebSocket_fresh(4) [OF v]]) simp
  next
    case (Some c)
    show "media_inv P (connectToSignalingWebSocket sid stid (Some u) ex w)"
      unfolding Some
      by (rule media_inv_append [OF assms connectToSignalingWebSocket_reuse(1) [OF v]
            connectToSignalingWebSocket_reuse(4) [OF v]]) simp
  qed
qed

lemma media_inv_setTimeout:
  assumes "media_inv P w"
    and "\<And>u sid stid c. t = ReconnectMedia u sid stid c \<Longrightarrow> P sid u (length (sockets w))"
  shows "media_inv P (setTimeout t ms w)"
  using assms unfolding media_inv_def by (simp add: ball_Un) blast

lemma same_shape_on_open:
  "on_open hmac cfg a h w = Returns w' \<Longrightarrow> same_shape w w'"
  by (cases h)
     (auto simp: signaling_on_open_def media_on_open_def same_shape_def
        split: if_splits sum.splits)

lemma same_shape_funpow_close: "same_shape w (((ws_close a) ^^ n) w)"
proof (induction n)
  case 0
  then show ?case by simp
next
  case (Suc n)
  then show ?case
    using same_shape_trans [OF Suc same_shape_prims(3)] by simp
qed

lemma same_shape_once_open_listeners: "same_shape w (once_open_listeners a w)"
proof -
  let ?v = "w\<lparr>sockets := (sockets w)[a := (sockets w ! a)\<lparr>onceOpenClose := 0\<rparr>]\<rparr>"
  have "same_shape w ?v"
    by (simp add: same_shape_def closures_def identities_def signaling_refs_def pending_def
          sockets_update_proj [where g = "\<lambda>s. s\<lparr>onceOpenClose := 0\<rparr>"])
  then show ?thesis
    unfolding once_open_listeners_def
    using same_shape_trans same_shape_funpow_close by blast
qed

lemma same_shape_on_error: "same_shape w (on_error h w)"
  by (cases h) (simp_all add: signaling_on_error_def media_on_error_def same_shape_def)

lemma same_shape_media_payload:
  "media_payload tag dec msg w = Returns w' \<Longrightarrow> same_shape w w'"
  "media_payload tag dec msg w = Throws e w' \<Longrightarrow> same_shape w w'"
  by (auto simp: media_payload_def Let_def same_shape_def split: if_splits)

lemma same_shape_handleMediaMessage_try:
  "handleMediaMessage_try data c m sso sid stid w = Returns w' \<Longrightarrow> same_shape w w'"
  "handleMediaMessage_try data c m sso sid stid w = Throws e w' \<Longrightarrow> same_shape w w'"
  by (auto simp: handleMediaMessage_try_def Let_def
        split: wire.splits sum.splits if_splits option.splits
        dest: same_shape_media_payload)
     (simp_all add: same_shape_def)

lemma same_shape_handleMediaMessage: "same_shape w (handleMediaMessage data c m sso sid stid w)"
proof (cases "handleMediaMessage_try data c m sso sid stid w")
  case (Returns w')
  then show ?thesis
    using same_shape_handleMediaMessage_try(1) by (simp add: handleMediaMessage_def)
next
  case (Throws e w')
  then have "same_shape w w'" by (rule same_shape_handleMediaMessage_try(2))
  then show ?thesis
    using Throws same_shape_trans [OF _ same_shape_prims(1)]
    by (simp add: handleMediaMessage_def)
qed

lemma get_member_field: "get_member (Some msg) k = Inr t \<Longrightarrow> field msg k = t"
  by (cases msg) auto

lemma signaling_on_message_cases:
  assumes "signaling_on_message ws sid stid c data w = Returns w'"
  shows "same_shape w w'
    \<or> (\<exists>msg. data = Json msg \<and> handshake_success msg
          \<and> w' = ws_send ws event_subscription
                 (connectToMediaWebSocket (media_endpoint msg) sid stid (Some ws) c
                   (set_state Signaling c ''ready''
                     (console ''[Signaling] Handshake OK - media URL'' w))))
    \<or> w' = cleanupConnection sid (console ''[Signaling] Stream state changed'' w)"
proof (cases data)
  case Garbage
  then show ?thesis
    using assms by (auto simp: signaling_on_message_def same_shape_def)
next
  case (Json msg)
  show ?thesis
  proof (cases "get_member (Some msg) ''msg_type''")
    case (Inl e)
    then show ?thesis using assms Json by (simp add: signaling_on_message_def)
  next
    case (Inr t)
    note f = get_member_field [OF Inr]
    consider "t = Some (JNum 2)" | "t = Some (JNum 6)" | "t = Some (JNum 8)" | "t = Some (JNum 9)"
      | "t = Some (JNum 12)"
      | "t \<noteq> Some (JNum 2)" "t \<noteq> Some (JNum 6)" "t \<noteq> Some (JNum 8)" "t \<noteq> Some (JNum 9)" "t \<noteq> Some (JNum 12)"
      by blast
    then show ?thesis
    proof cases
      case 1
      then show ?thesis
        using assms Json Inr f
        by (auto simp: signaling_on_message_def Let_def handshake_success_def same_shape_def
              split: if_splits)
    next
      case 2
      then show ?thesis
        using assms Json Inr
        by (auto simp: signaling_on_message_def Let_def signaling_event_def same_shape_def
              split: if_splits option.splits)
    next
      case 3
      then show ?thesis
        using assms Json Inr
        by (auto simp: signaling_on_message_def Let_def same_shape_def split: if_splits)
    next
      case 4
      then show ?thesis
        using assms Json Inr
        by (auto simp: signaling_on_message_def Let_def same_shape_def split: if_splits)
    next
      case 5
      then show ?thesis
        using assms Json Inr
        by (auto simp: signaling_on_message_def Let_def same_shape_def split: if_splits)
    next
      case 6
      then show ?thesis
        using assms Json Inr
        by (auto simp: signaling_on_message_def Let_def same_shape_def split: if_splits)
    qed
  qed
qed

lemma closures_nth: "a < length (sockets w) \<Longrightarrow> closures w ! a = (url (sockets w ! a), handlers (sockets w ! a))"
  by (simp add: closures_def)

lemma wf_closure:
  "wf_world w \<Longrightarrow> a < length (sockets w) \<Longrightarrow> closure_ok w (url (sockets w ! a), handlers (sockets w ! a))"
  unfolding wf_world_def using closures_nth [of a w] nth_mem [of a "closures w"] by auto

lemma wf_signaling_ref:
  "wf_world w \<Longrightarrow> c < length (conns w) \<Longrightarrow> sigsock_ok w (socket (signaling (conns w ! c)))"
  unfolding wf_world_def using nth_mem [of c "signaling_refs w"] by (auto simp: signaling_refs_def)

lemma wf_setTimeout: "wf_world w \<Longrightarrow> timer_ok w t \<Longrightarrow> wf_world (setTimeout t ms w)"
proof (rule wf_worldI [of w])
  assume "wf_world w" and t: "timer_ok w t"
  show "grows w (setTimeout t ms w)" by (simp add: grows_def)
  show "t' \<in> set (pending w) \<or> timer_ok (setTimeout t ms w) t'"
    if "t' \<in> set (pending (setTimeout t ms w))" for t'
    using that timer_ok_grows [OF t, of "setTimeout t ms w"] by (auto simp: grows_def)
  show "distinct (map fst (activeConnections (setTimeout t ms w)))"
    using \<open>wf_world w\<close> by (simp add: wf_world_def)
qed simp_all

lemma ref_ok_same_shape: "same_shape w w' \<Longrightarrow> ref_ok w' sid stid c = ref_ok w sid stid c"
  by (simp only: ref_ok_def same_shape_cong)

lemma sigsock_ok_same_shape: "same_shape w w' \<Longrightarrow> sigsock_ok w' r = sigsock_ok w r"
  by (simp only: sigsock_ok_def same_shape_cong)

lemma same_shape_length: "same_shape w w' \<Longrightarrow> length (sockets w') = length (sockets w)"
  using length_closures by (metis same_shape_cong(1))

lemma signaling_on_close_inv:
  assumes wf: "wf_world w" and r: "ref_ok w sid stid c" and mi: "media_inv P w"
  shows "wf_world (signaling_on_close sid stid c w)"
    and "media_inv P (signaling_on_close sid stid c w)"
    and "grows w (signaling_on_close sid stid c w)"
proof -
  let ?w2 = "set_state Signaling c ''closed'' (console ''[Signaling] Closed'' w)"
  let ?w3 = "console ''[Signaling] Reconnecting in 3s...'' ?w2"
  have s2: "same_shape w ?w2" and s3: "same_shape w ?w3" by (simp_all add: same_shape_def)
  have wf3: "wf_world ?w3" and wf2: "wf_world ?w2" using wf s2 s3 same_shape_wf by blast+
  have t: "timer_ok ?w3 (ReconnectSignaling sid stid c)"
    using r by (simp add: ref_ok_same_shape [OF s3])
  have m3: "media_inv P ?w3" and m2: "media_inv P ?w2"
    using mi by (simp_all add: media_inv_same_shape [OF s3] media_inv_same_shape [OF s2])
  show "wf_world (signaling_on_close sid stid c w)"
    using wf2 wf_setTimeout [OF wf3 t] by (simp add: signaling_on_close_def Let_def)
  show "media_inv P (signaling_on_close sid stid c w)"
    using m2 media_inv_setTimeout [OF m3, of "ReconnectSignaling sid stid c"]
    by (simp add: signaling_on_close_def Let_def)
  show "grows w (signaling_on_close sid stid c w)"
    by (simp add: signaling_on_close_def Let_def grows_def)
qed

lemma media_on_close_inv:
  assumes wf: "wf_world w" and r: "ref_ok w sid stid c" and mi: "media_inv P w"
    and up: "upward P" and p: "P sid u (length (sockets w))"
  shows "wf_world (media_on_close u sid stid c w)"
    and "media_inv P (media_on_close u sid stid c w)"
    and "grows w (media_on_close u sid stid c w)"
proof -
  let ?w2 = "set_state Media c ''closed'' (console ''[Media] Connection closed'' w)"
  let ?w3 = "console ''[Media] Reconnecting in 3s...'' ?w2"
  let ?w4 = "console ''[Media] Signaling not ready - restarting both connections...'' ?w2"
  let ?w5 = "connectToSignalingWebSocket sid stid (Some (serverUrls (conns ?w2 ! c))) (Some c) ?w4"
  have s2: "same_shape w ?w2" and s3: "same_shape w ?w3" and s4: "same_shape w ?w4"
    by (simp_all add: same_shape_def)
  have wf2: "wf_world ?w2" and wf3: "wf_world ?w3" and wf4: "wf_world ?w4"
    using wf s2 s3 s4 same_shape_wf by blast+
  have m2: "media_inv P ?w2" and m3: "media_inv P ?w3" and m4: "media_inv P ?w4"
    using mi by (simp_all add: media_inv_same_shape [OF s2] media_inv_same_shape [OF s3]
          media_inv_same_shape [OF s4])
  have t: "timer_ok ?w3 (ReconnectMedia u sid stid c)"
    using r by (simp add: ref_ok_same_shape [OF s3])
  have r4: "ref_ok ?w4 sid stid c" using r by (simp add: ref_ok_same_shape [OF s4])
  have p3: "P sid u (length (sockets ?w3))" using p by (simp add: same_shape_length [OF s3])
  have wf5: "wf_world ?w5" by (rule wf_connectToSignaling [OF wf4]) (simp add: r4)
  have m5: "media_inv P ?w5" by (rule media_inv_connectToSignaling [OF m4 up])
  have g5: "grows w ?w5"
    using grows_trans [OF same_shape_grows [OF s4] grows_connectToSignaling] .
  show "wf_world (media_on_close u sid stid c w)"
    using wf2 wf_setTimeout [OF wf3 t] wf5 by (simp add: media_on_close_def Let_def)
  show "media_inv P (media_on_close u sid stid c w)"
    using m2 media_inv_setTimeout [OF m3, of "ReconnectMedia u sid stid c"] p3 m5
    by (simp add: media_on_close_def Let_def)
  show "grows w (media_on_close u sid stid c w)"
    using g5 same_shape_grows [OF s2] same_shape_grows [OF s3]
    by (simp add: media_on_close_def Let_def grows_def)
qed

lemma signaling_on_message_inv:
  assumes res: "signaling_on_message ws sid stid c data w = Returns w'"
    and wf: "wf_world w" and r: "ref_ok w sid stid c" and s: "sigsock_ok w (Some ws)"
    and mi: "media_inv P w" and up: "upward P"
    and p: "\<And>msg. data = Json msg \<Longrightarrow> handshake_success msg
              \<Longrightarrow> P sid (media_endpoint msg) (length (sockets w))"
  shows "wf_world w' \<and> media_inv P w' \<and> grows w w'"
proof -
  consider (same) "same_shape w w'"
    | (hs) msg where "data = Json msg" "handshake_success msg"
        "w' = ws_send ws event_subscription
                 (connectToMediaWebSocket (media_endpoint msg) sid stid (Some ws) c
                   (set_state Signaling c ''ready''
                     (console ''[Signaling] Handshake OK - media URL'' w)))"
    | (cleanup) "w' = cleanupConnection sid (console ''[Signaling] Stream state changed'' w)"
    using signaling_on_message_cases [OF res] by blast
  then show ?thesis
  proof cases
    case same
    then show ?thesis
      using wf mi by (simp add: same_shape_wf media_inv_same_shape same_shape_grows)
  next
    case hs
    let ?v = "set_state Signaling c ''ready'' (console ''[Signaling] Handshake OK - media URL'' w)"
    let ?m = "connectToMediaWebSocket (media_endpoint msg) sid stid (Some ws) c ?v"
    have sv: "same_shape w ?v" by (simp add: same_shape_def)
    have wfv: "wf_world ?v" using wf sv same_shape_wf by blast
    have rv: "ref_ok ?v sid stid c" using r by (simp add: ref_ok_same_shape [OF sv])
    have ssv: "sigsock_ok ?v (Some ws)" using s by (simp add: sigsock_ok_same_shape [OF sv])
    have miv: "media_inv P ?v" using mi by (simp add: media_inv_same_shape [OF sv])
    have pv: "P sid (media_endpoint msg) (length (sockets ?v))"
      using p [OF hs(1,2)] by (simp add: same_shape_length [OF sv])
    have wfm: "wf_world ?m" by (rule wf_connectToMedia [OF wfv rv ssv])
    have mim: "media_inv P ?m" by (rule media_inv_connectToMedia [OF miv up pv])
    have gm: "grows w ?m" using grows_trans [OF same_shape_grows [OF sv] grows_connectToMedia] .
    have sw: "same_shape ?m w'" unfolding hs(3) by simp
    show ?thesis
      using wfm mim gm sw same_shape_wf media_inv_same_shape [OF sw] grows_trans same_shape_grows
      by blast
  next
    case cleanup
    let ?v = "console ''[Signaling] Stream state changed'' w"
    have sv: "same_shape w ?v" by simp
    have wfv: "wf_world ?v" using wf sv same_shape_wf by blast
    have miv: "media_inv P ?v" using mi by (simp add: media_inv_same_shape [OF sv])
    have "media_inv P (cleanupConnection sid ?v)"
      using miv by (simp add: media_inv_same [of "cleanupConnection sid ?v" ?v] cleanupConnection_shape)
    moreover have "grows w (cleanupConnection sid ?v)"
      using grows_trans [OF same_shape_grows [OF sv] grows_cleanupConnection] .
    ultimately show ?thesis
      using wf_cleanupConnection [OF wfv] unfolding cleanup by blast
  qed
qed

lemma timer_callback_inv:
  assumes wf: "wf_world w" and t: "timer_ok w t" and mi: "media_inv P w" and up: "upward P"
    and p: "\<And>u sid stid c. t = ReconnectMedia u sid stid c \<Longrightarrow> P sid u (length (sockets w))"
  shows "wf_world (timer_callback t w) \<and> media_inv P (timer_callback t w) \<and> grows w (timer_callback t w)"
proof (cases t)
  case (ReconnectMedia u sid stid c)
  have r: "ref_ok w sid stid c" using t ReconnectMedia by simp
  then have "c < length (conns w)" by (simp add: ref_ok_def)
  then have s: "sigsock_ok w (socket (signaling (conns w ! c)))" by (rule wf_signaling_ref [OF wf])
  show ?thesis
    unfolding ReconnectMedia timer_callback.simps
    using wf_connectToMedia [OF wf r s] media_inv_connectToMedia [OF mi up p [OF ReconnectMedia]]
      grows_connectToMedia by blast
next
  case (ReconnectSignaling sid stid c)
  have r: "ref_ok w sid stid c" using t ReconnectSignaling by simp
  have "wf_world (connectToSignalingWebSocket sid stid (Some (serverUrls (conns w ! c))) (Some c) w)"
    by (rule wf_connectToSignaling [OF wf]) (simp add: r)
  then show ?thesis
    unfolding ReconnectSignaling timer_callback.simps
    using wf mi media_inv_connectToSignaling [OF mi up] grows_connectToSignaling by simp
qed

lemma shutdown_fold_inv:
  "wf_world w \<Longrightarrow> media_inv P w \<Longrightarrow>
   wf_world (foldl (\<lambda>w' k. cleanupConnection k w') w ks)
   \<and> media_inv P (foldl (\<lambda>w' k. cleanupConnection k w') w ks)
   \<and> grows w (foldl (\<lambda>w' k. cleanupConnection k w') w ks)"
proof (induction ks arbitrary: w)
  case Nil
  then show ?case by simp
next
  case (Cons k ks)
  have 1: "wf_world (cleanupConnection k w)" using Cons.prems(1) by (rule wf_cleanupConnection)
  have 2: "media_inv P (cleanupConnection k w)"
    using Cons.prems(2) by (simp add: media_inv_same [of "cleanupConnection k w" w] cleanupConnection_shape)
  show ?case
    using Cons.IH [OF 1 2] grows_trans [OF grows_cleanupConnection] by (simp del: grows_def) blast
qed

lemma shutdown_inv:
  assumes "wf_world w" "media_inv P w"
  shows "wf_world (shutdown w) \<and> media_inv P (shutdown w) \<and> grows w (shutdown w)"
proof -
  let ?v = "console ''[Shutdown] Cleaning up...'' w"
  have sv: "same_shape w ?v" by simp
  have "wf_world ?v" "media_inv P ?v"
    using assms same_shape_wf [OF sv] by (simp_all add: media_inv_same_shape [OF sv])
  from shutdown_fold_inv [OF this] show ?thesis
    unfolding shutdown_def using grows_trans [OF same_shape_grows [OF sv]] by blast
qed

lemma same_shape_inv:
  "same_shape w w' \<Longrightarrow> wf_world w \<Longrightarrow> media_inv P w
   \<Longrightarrow> wf_world w' \<and> media_inv P w' \<and> grows w w'"
  by (simp add: same_shape_wf media_inv_same_shape same_shape_grows)

lemma step_inv:
  assumes res: "step hmac cfg ev w = Returns w'"
    and wf: "wf_world w" and mi: "media_inv P w" and up: "upward P"
    and acc: "\<And>sid u. accepted_handshake w ev = Some (sid, u) \<Longrightarrow> P sid u (length (sockets w))"
  shows "wf_world w' \<and> media_inv P w' \<and> grows w w'"
proof (cases ev)
  case (RtmsStarted sid stid urls)
  let ?v = "console ''[Webhook] RTMS started for session'' w"
  have sv: "same_shape w ?v" by simp
  have wfv: "wf_world ?v" and miv: "media_inv P ?v"
    using same_shape_inv [OF sv wf mi] by simp_all
  have "wf_world (connectToSignalingWebSocket sid stid urls None ?v)"
    by (rule wf_connectToSignaling [OF wfv]) simp
  moreover have "w' = connectToSignalingWebSocket sid stid urls None ?v"
    using res RtmsStarted by (simp add: step_def webhook_rtms_started_def)
  ultimately show ?thesis
    using media_inv_connectToSignaling [OF miv up]
      grows_trans [OF same_shape_grows [OF sv] grows_connectToSignaling] by simp
next
  case (RtmsStopped sid)
  let ?v = "console ''[Webhook] RTMS stopped for session'' w"
  have sv: "same_shape w ?v" by simp
  have wfv: "wf_world ?v" and miv: "media_inv P ?v"
    using same_shape_inv [OF sv wf mi] by simp_all
  have w': "w' = cleanupConnection sid ?v"
    using res RtmsStopped by (simp add: step_def webhook_rtms_stopped_def)
  have "media_inv P (cleanupConnection sid ?v)"
    using miv by (simp add: media_inv_same [of "cleanupConnection sid ?v" ?v] cleanupConnection_shape)
  then show ?thesis
    unfolding w'
    using wf_cleanupConnection [OF wfv] grows_trans [OF same_shape_grows [OF sv] grows_cleanupConnection]
    by simp
next
  case (WsOpen a)
  show ?thesis
  proof (cases "a < length (sockets w) \<and> readyState (sockets w ! a) = CONNECTING")
    case False
    then have "w' = w" using res WsOpen by (auto simp: step_def)
    then show ?thesis using wf mi by simp
  next
    case True
    let ?v = "set_readyState a OPEN w"
    obtain v' where o: "on_open hmac cfg a (handlers (sockets w ! a)) ?v = Returns v'"
      and w': "w' = once_open_listeners a v'"
      using res WsOpen True by (auto simp: step_def split: outcome.splits)
    have "same_shape w w'"
      unfolding w'
      using same_shape_trans [OF same_shape_trans [OF same_shape_prims(5) same_shape_on_open [OF o]]
          same_shape_once_open_listeners] .
    then show ?thesis using same_shape_inv wf mi by blast
  qed
next
  case (WsMessage a data)
  show ?thesis
  proof (cases "a < length (sockets w) \<and> readyState (sockets w ! a) \<in> {OPEN, CLOSING}")
    case False
    then have "w' = w" using res WsMessage by (auto simp: step_def)
    then show ?thesis using wf mi by simp
  next
    case True
    then have a: "a < length (sockets w)" by simp
    have r: "on_message a (handlers (sockets w ! a)) data w = Returns w'"
      using res WsMessage True by (simp add: step_def)
    note ok = wf_closure [OF wf a]
    show ?thesis
    proof (cases "handlers (sockets w ! a)")
      case (SignalingWs sid stid c)
      have r': "signaling_on_message a sid stid c data w = Returns w'"
        using r SignalingWs by simp
      have ref: "ref_ok w sid stid c" using ok SignalingWs by simp
      have ss: "sigsock_ok w (Some a)"
        using a SignalingWs by (simp add: sigsock_ok_def closures_nth is_signaling_def)
      have p: "P sid (media_endpoint msg) (length (sockets w))"
        if "data = Json msg" "handshake_success msg" for msg
        using acc [of sid "media_endpoint msg"] that True SignalingWs WsMessage by simp
      show ?thesis
        by (rule signaling_on_message_inv [OF r' wf ref ss mi up p])
    next
      case (MediaWs u sid stid sso c)
      have "w' = handleMediaMessage data c a sso sid stid w" using r MediaWs by simp
      then show ?thesis
        using same_shape_inv [OF same_shape_handleMediaMessage wf mi] by simp
    qed
  qed
next
  case (WsClose a)
  show ?thesis
  proof (cases "a < length (sockets w) \<and> readyState (sockets w ! a) \<noteq> CLOSED")
    case False
    then have "w' = w" using res WsClose by (auto simp: step_def)
    then show ?thesis using wf mi by simp
  next
    case True
    then have a: "a < length (sockets w)" by simp
    let ?v = "set_readyState a CLOSED w"
    have sv: "same_shape w ?v" by simp
    have wfv: "wf_world ?v" and miv: "media_inv P ?v"
      using same_shape_inv [OF sv wf mi] by simp_all
    have w': "w' = on_close (handlers (sockets w ! a)) ?v"
      using res WsClose True by (simp add: step_def)
    note ok = wf_closure [OF wf a]
    show ?thesis
    proof (cases "handlers (sockets w ! a)")
      case (SignalingWs sid stid c)
      have "ref_ok ?v sid stid c" using ok SignalingWs by (simp add: ref_ok_same_shape [OF sv])
      from signaling_on_close_inv [OF wfv this miv] show ?thesis
        unfolding w' SignalingWs using grows_trans [OF same_shape_grows [OF sv]] by simp
    next
      case (MediaWs u sid stid sso c)
      have ref: "ref_ok ?v sid stid c" using ok MediaWs by (simp add: ref_ok_same_shape [OF sv])
      have "snd (closures w ! a) = MediaWs u sid stid sso c" using a MediaWs by (simp add: closures_nth)
      then have "P sid u a" using mi a unfolding media_inv_def by (simp del: snd_conv)
      then have "P sid u (length (sockets ?v))"
        using up a unfolding upward_def same_shape_length [OF sv] by (meson less_imp_le)
      from media_on_close_inv [OF wfv ref miv up this] show ?thesis
        unfolding w' MediaWs using grows_trans [OF same_shape_grows [OF sv]] by simp
    qed
  qed
next
  case (WsError a)
  show ?thesis
  proof (cases "a < length (sockets w) \<and> readyState (sockets w ! a) \<noteq> CLOSED")
    case False
    then have "w' = w" using res WsError by (auto simp: step_def)
    then show ?thesis using wf mi by simp
  next
    case True
    then have "w' = on_error (handlers (sockets w ! a)) w" using res WsError by (simp add: step_def)
    then show ?thesis using same_shape_inv [OF same_shape_on_error wf mi] by simp
  qed
next
  case TimerFires
  show ?thesis
  proof (cases "timers w")
    case Nil
    then have "w' = w" using res TimerFires by (simp add: step_def)
    then show ?thesis using wf mi by simp
  next
    case (Cons dt rest)
    obtain due t where dt: "dt = (due, t)" by (cases dt)
    let ?v = "w\<lparr>timers := rest, clock := max (clock w) due\<rparr>"
    have w': "w' = timer_callback t ?v" using res TimerFires Cons dt by (simp add: step_def)
    have cl: "closures ?v = closures w" "identities ?v = identities w"
      "signaling_refs ?v = signaling_refs w" "activeConnections ?v = activeConnections w"
      by (simp_all add: closures_def identities_def signaling_refs_def)
    have pe: "pending w = t # pending ?v" using Cons dt by (simp add: pending_def)
    have g: "grows w ?v" by (simp add: grows_def cl)
    have wfv: "wf_world ?v"
      by (rule wf_worldI [OF wf g]) (use wf in \<open>auto simp: cl pe wf_world_def\<close>)
    have miv: "media_inv P ?v"
      by (rule media_inv_drop [OF mi cl(1)]) (auto simp: pe)
    have tk: "timer_ok ?v t"
      using wf timer_ok_grows [OF _ g, of t] unfolding wf_world_def by (simp add: pe)
    have p: "P sid u (length (sockets ?v))" if "t = ReconnectMedia u sid stid c" for u sid stid c
      using mi that unfolding media_inv_def by (simp add: pe)
    have "wf_world (timer_callback t ?v) \<and> media_inv P (timer_callback t ?v)
        \<and> grows ?v (timer_callback t ?v)"
    proof (rule timer_callback_inv [OF wfv tk miv up])
      fix u sid stid c
      assume "t = ReconnectMedia u sid stid c"
      then show "P sid u (length (sockets ?v))" by (rule p)
    qed
    then show ?thesis
      unfolding w' using grows_trans [OF g] by blast
  qed
next
  case (Elapse ms)
  then have w': "w' = w\<lparr>clock := clock w + ms\<rparr>" using res by (simp add: step_def)
  have "same_shape w w'"
    unfolding w' by (simp add: same_shape_def closures_def identities_def signaling_refs_def pending_def)
  then show ?thesis using same_shape_inv wf mi by blast
next
  case Sigint
  then have "w' = shutdown w" using res by (simp add: step_def)
  then show ?thesis using shutdown_inv [OF wf mi] by simp
qed

lemma run_snoc:
  "run hmac cfg (evs @ [ev]) w =
     (case run hmac cfg evs w of Throws e v \<Rightarrow> Throws e v | Returns v \<Rightarrow> step hmac cfg ev v)"
  by (induction evs arbitrary: w) (auto split: outcome.splits)

lemma wf_boot: "wf_world boot"
  by (simp add: wf_world_def boot_def closures_def identities_def signaling_refs_def pending_def)

lemma media_inv_boot: "media_inv P boot"
  by (simp add: media_inv_def boot_def closures_def pending_def)

lemma media_inv_mono:
  assumes "media_inv P w" and "\<And>sid u m. P sid u m \<Longrightarrow> Q sid u m"
  shows "media_inv Q w"
  unfolding media_inv_def
proof (intro conjI allI impI ballI)
  fix m u sid stid sso c
  assume "m < length (closures w)" "snd (closures w ! m) = MediaWs u sid stid sso c"
  then have "P sid u m" using assms(1) unfolding media_inv_def by blast
  then show "Q sid u m" by (rule assms(2))
next
  fix t u sid stid c
  assume "t \<in> set (pending w)" "t = ReconnectMedia u sid stid c"
  then have "P sid u (length (closures w))" using assms(1) unfolding media_inv_def by blast
  then show "Q sid u (length (closures w))" by (rule assms(2))
qed

lemma upward_seen: "upward (seen hmac cfg evs)"
  unfolding upward_def seen_def by (meson le_trans)

lemma seen_snoc: "seen hmac cfg evs sid u m \<Longrightarrow> seen hmac cfg (evs @ [ev]) sid u m"
  unfolding seen_def
proof -
  assume "\<exists>i<length evs. \<exists>v. run hmac cfg (take i evs) boot = Returns v
      \<and> accepted_handshake v (evs ! i) = Some (sid, u) \<and> length (sockets v) \<le> m"
  then obtain i v where i: "i < length evs" and r: "run hmac cfg (take i evs) boot = Returns v"
    and a: "accepted_handshake v (evs ! i) = Some (sid, u)" and l: "length (sockets v) \<le> m"
    by blast
  have "i < length (evs @ [ev])" using i by simp
  moreover have "run hmac cfg (take i (evs @ [ev])) boot = Returns v" using i r by simp
  moreover have "accepted_handshake v ((evs @ [ev]) ! i) = Some (sid, u)"
    using i a by (simp add: nth_append)
  ultimately show "\<exists>i<length (evs @ [ev]). \<exists>v. run hmac cfg (take i (evs @ [ev])) boot = Returns v
      \<and> accepted_handshake v ((evs @ [ev]) ! i) = Some (sid, u) \<and> length (sockets v) \<le> m"
    using l by blast
qed

lemma seen_last:
  assumes "run hmac cfg evs boot = Returns v" "accepted_handshake v ev = Some (sid, u)"
  shows "seen hmac cfg (evs @ [ev]) sid u (length (sockets v))"
  unfolding seen_def
proof (intro exI conjI)
  show "length evs < length (evs @ [ev])" by simp
  show "run hmac cfg (take (length evs) (evs @ [ev])) boot = Returns v" using assms(1) by simp
  show "accepted_handshake v ((evs @ [ev]) ! length evs) = Some (sid, u)" using assms(2) by simp
  show "length (sockets v) \<le> length (sockets v)" by simp
qed

lemma reachable_inv:
  "run hmac cfg evs boot = Returns w \<Longrightarrow> wf_world w \<and> media_inv (seen hmac cfg evs) w"
proof (induction evs arbitrary: w rule: rev_induct)
  case Nil
  then show ?case using wf_boot media_inv_boot by simp
next
  case (snoc ev evs)
  from snoc.prems obtain v where v: "run hmac cfg evs boot = Returns v"
    and st: "step hmac cfg ev v = Returns w"
    by (auto simp: run_snoc split: outcome.splits)
  from snoc.IH [OF v] have wf: "wf_world v" and mi: "media_inv (seen hmac cfg evs) v" by simp_all
  have mi': "media_inv (seen hmac cfg (evs @ [ev])) v"
    using mi seen_snoc by (rule media_inv_mono)
  have "wf_world w \<and> media_inv (seen hmac cfg (evs @ [ev])) w \<and> grows v w"
    using st wf mi' upward_seen
  proof (rule step_inv)
    fix sid u
    assume "accepted_handshake v ev = Some (sid, u)"
    with v show "seen hmac cfg (evs @ [ev]) sid u (length (sockets v))" by (rule seen_last)
  qed
  then show ?case by simp
qed

lemma live_run: "run example_hash example_config session_up boot = Returns live"
  unfolding live_def by code_simp

text \<open>
  Claim C7. In every run of the event loop from the start, every media socket (each one
  is a media connection attempt: \<^verbatim>\<open>connectToMediaWebSocket\<close> creates it) was created for
  the URL it connects to, and a signaling handshake response with status 0 for the same
  session, carrying exactly that URL as its media endpoint, was delivered earlier in the
  run, at a time when the media socket did not exist yet.
\<close>

theorem media_after_handshake:
  assumes reach: "run hmac cfg evs boot = Returns w"
    and m: "m < length (sockets w)"
    and h: "handlers (sockets w ! m) = MediaWs u sid stid sso c"
  shows "url (sockets w ! m) = u
    \<and> (\<exists>i < length evs. \<exists>v. run hmac cfg (take i evs) boot = Returns v
          \<and> accepted_handshake v (evs ! i) = Some (sid, u) \<and> length (sockets v) \<le> m)"
proof -
  from reachable_inv [OF reach] have wf: "wf_world w" and mi: "media_inv (seen hmac cfg evs) w"
    by simp_all
  have "closure_ok w (url (sockets w ! m), handlers (sockets w ! m))" using wf m by (rule wf_closure)
  then have 1: "url (sockets w ! m) = u" unfolding h by simp
  have "snd (closures w ! m) = MediaWs u sid stid sso c" using m h by (simp add: closures_nth)
  then have "seen hmac cfg evs sid u m"
    using mi m unfolding media_inv_def by (simp del: snd_conv)
  then show ?thesis using 1 unfolding seen_def by simp
qed

text \<open>The theorem at the example session: its media socket, at address 1, connects to
  "wss://m", the endpoint of the handshake response that was the third event.\<close>

theorem media_after_handshake_witness:
  "run example_hash example_config session_up boot = Returns live
   \<and> 1 < length (sockets live)
   \<and> handlers (sockets live ! 1) = MediaWs (Some (JStr ''wss://m'')) ''s'' ''t'' (Some 0) 0
   \<and> url (sockets live ! 1) = Some (JStr ''wss://m'')
   \<and> (\<exists>i < length session_up. \<exists>v. run example_hash example_config (take i session_up) boot = Returns v
          \<and> accepted_handshake v (session_up ! i) = Some (''s'', Some (JStr ''wss://m''))
          \<and> length (sockets v) \<le> 1)"
proof -
  have r: "run example_hash example_config session_up boot = Returns live"
    by (rule live_run)
  have m: "1 < length (sockets live)" by code_simp
  have h: "handlers (sockets live ! 1) = MediaWs (Some (JStr ''wss://m'')) ''s'' ''t'' (Some 0) 0"
    by code_simp
  show ?thesis
    using media_after_handshake [OF r m h] r m h by simp
qed

subsection \<open>Messages\<close>

text \<open>
  Claim C9. A frame that does not parse is logged and dropped on both channels: the
  signaling handler and the media handler return normally, and the world after them is
  the world before with one log line added, so no entry, socket, timer or registry entry
  changes and nothing is sent. The same holds for the event loop delivering such a frame
  to any socket.
\<close>

theorem malformed_discarded:
  "signaling_on_message signalingWs sid stid conn Garbage w
     = Returns (w\<lparr>effects := effects w @ [Log ''[Signaling] Invalid JSON received'']\<rparr>)
   \<and> handleMediaMessage Garbage conn mediaWs signalingSocket sid stid w
     = w\<lparr>effects := effects w @ [Log ''[Media] Failed to parse message'']\<rparr>
   \<and> step hmac cfg (WsMessage a Garbage) w
     \<in> {Returns w,
        Returns (w\<lparr>effects := effects w @ [Log ''[Signaling] Invalid JSON received'']\<rparr>),
        Returns (w\<lparr>effects := effects w @ [Log ''[Media] Failed to parse message'']\<rparr>)}"
  by (cases "handlers (sockets w ! a)")
     (simp_all add: signaling_on_message_def handleMediaMessage_def handleMediaMessage_try_def
        console_def step_def)





lemma reachable_wf: "run hmac cfg evs boot = Returns w \<Longrightarrow> wf_world w"
  using reachable_inv by blast

lemma ref_okD:
  assumes "ref_ok w sid stid c"
  shows "c < length (conns w)" "sessionId (conns w ! c) = sid" "streamId (conns w ! c) = stid"
proof -
  show c: "c < length (conns w)" using assms by (simp add: ref_ok_def)
  have "identities w ! c = (sessionId (conns w ! c), streamId (conns w ! c), serverUrls (conns w ! c))"
    using c by (simp add: identities_def)
  then show "sessionId (conns w ! c) = sid" "streamId (conns w ! c) = stid"
    using assms by (simp_all add: ref_ok_def)
qed





subsection \<open>Reconnection\<close>

lemma media_on_close_eq:
  assumes c: "c < length (conns w)" and sr: "shouldReconnect (conns w ! c)"
  shows "media_on_close u sid stid c w =
     (let closed = w\<lparr>conns := (conns w)[c := (conns w ! c)\<lparr>media := (media (conns w ! c))\<lparr>state := ''closed''\<rparr>\<rparr>],
                     effects := effects w @ [Log ''[Media] Connection closed'']\<rparr>
      in if state (signaling (conns w ! c)) = ''ready''
            \<and> socket_is_open w (socket (signaling (conns w ! c)))
         then closed\<lparr>timers := timers w @ [(clock w + 3000, ReconnectMedia u sid stid c)],
                     effects := effects closed @ [Log ''[Media] Reconnecting in 3s...'',
                                                 SetTimeout (ReconnectMedia u sid stid c) 3000]\<rparr>
         else connectToSignalingWebSocket sid stid (Some (serverUrls (conns w ! c))) (Some c)
                (closed\<lparr>effects := effects closed @
                    [Log ''[Media] Signaling not ready - restarting both connections...'']\<rparr>))"
  using c sr
  by (cases "socket (signaling (conns w ! c))")
     (simp_all add: media_on_close_def Let_def prim_defs socket_is_open_def)


lemma sigsock_okD:
  assumes "sigsock_ok w (Some s)"
  shows "s < length (sockets w)" "is_signaling (handlers (sockets w ! s))"
proof -
  show l: "s < length (sockets w)" using assms by (simp add: sigsock_ok_def)
  show "is_signaling (handlers (sockets w ! s))"
    using assms closures_nth [OF l] by (simp add: sigsock_ok_def)
qed

lemma connectToSignalingWebSocket_restart:
  assumes v: "valid_url (Some u')" and c: "c < length (conns x)"
  shows "sockets (connectToSignalingWebSocket sid stid (Some u') (Some c) x)
           = sockets x @ [\<lparr>url = Some (JStr u'), readyState = CONNECTING,
                            handlers = SignalingWs sid stid c, onceOpenClose = 0\<rparr>]"
    and "timers (connectToSignalingWebSocket sid stid (Some u') (Some c) x) = timers x"
    and "activeConnections (connectToSignalingWebSocket sid stid (Some u') (Some c) x) = activeConnections x"
    and "length (conns (connectToSignalingWebSocket sid stid (Some u') (Some c) x)) = length (conns x)"
    and "socket (signaling (conns (connectToSignalingWebSocket sid stid (Some u') (Some c) x) ! c))
           = Some (length (sockets x))"
    and "state (signaling (conns (connectToSignalingWebSocket sid stid (Some u') (Some c) x) ! c))
           = ''connecting''"
  using assms
  by (simp_all add: connectToSignalingWebSocket_def valid_url_def Let_def prim_defs)

lemma wf_valid_url:
  assumes "wf_world w" "c < length (conns w)"
  shows "valid_url (Some (serverUrls (conns w ! c)))"
proof -
  have "identities w ! c \<in> set (identities w)" using assms(2) by simp
  moreover have "identities w ! c = (sessionId (conns w ! c), streamId (conns w ! c), serverUrls (conns w ! c))"
    using assms(2) by (simp add: identities_def)
  ultimately have "take 2 (serverUrls (conns w ! c)) = ''ws''"
    using assms(1) unfolding wf_world_def by force
  then show ?thesis by (auto simp: valid_url_def)
qed

text \<open>
  Claim C6. In every run of the event loop, when a media socket closes while its entry
  has \<^verbatim>\<open>shouldReconnect\<close> set, the media state becomes "closed", the registry and the
  number of entries stay as they are, and: if the signaling state is "ready" and the
  signaling socket is open, one timer is scheduled, due 3000 ms later, whose callback
  calls \<^verbatim>\<open>connectToMediaWebSocket\<close> with the same media URL, session and stream, the
  entry's signaling socket and the same entry, while no socket is created and the
  signaling part of the entry is untouched; otherwise no timer is scheduled and the
  signaling connect path runs at once with the entry passed through, so that a new
  signaling socket with a closure over the same entry is created and becomes the entry's
  signaling socket.
\<close>

theorem media_close_reconnects:
  assumes reach: "run hmac cfg evs boot = Returns w"
    and m: "m < length (sockets w)" and rs: "readyState (sockets w ! m) \<noteq> CLOSED"
    and h: "handlers (sockets w ! m) = MediaWs u sid stid sso c"
    and sr: "shouldReconnect (conns w ! c)"
  shows "\<exists>w'. step hmac cfg (WsClose m) w = Returns w'
     \<and> activeConnections w' = activeConnections w \<and> length (conns w') = length (conns w)
     \<and> state (media (conns w' ! c)) = ''closed''
     \<and> (if state (signaling (conns w ! c)) = ''ready''
            \<and> socket_is_open w (socket (signaling (conns w ! c)))
         then timers w' = timers w @ [(clock w + 3000, ReconnectMedia u sid stid c)]
              \<and> length (sockets w') = length (sockets w)
              \<and> signaling (conns w' ! c) = signaling (conns w ! c)
         else timers w' = timers w
              \<and> sockets w' = (sockets w)[m := (sockets w ! m)\<lparr>readyState := CLOSED\<rparr>]
                    @ [\<lparr>url = Some (JStr (serverUrls (conns w ! c))), readyState = CONNECTING,
                         handlers = SignalingWs sid stid c, onceOpenClose = 0\<rparr>]
              \<and> socket (signaling (conns w' ! c)) = Some (length (sockets w))
              \<and> state (signaling (conns w' ! c)) = ''connecting'')
     \<and> (\<forall>v. timer_callback (ReconnectMedia u sid stid c) v
             = connectToMediaWebSocket u sid stid (socket (signaling (conns v ! c))) c v)"
proof -
  have wf: "wf_world w" using reach by (rule reachable_wf)
  have ok: "closure_ok w (url (sockets w ! m), MediaWs u sid stid sso c)"
    using wf_closure [OF wf m] h by simp
  then have "ref_ok w sid stid c" by simp
  then have c: "c < length (conns w)" by (rule ref_okD(1))
  let ?v = "set_readyState m CLOSED w"
  have cv: "c < length (conns ?v)" and srv: "shouldReconnect (conns ?v ! c)"
    using c sr by (simp_all add: set_readyState_def)
  have st: "step hmac cfg (WsClose m) w = Returns (media_on_close u sid stid c ?v)"
    using m rs h by (simp add: step_def)
  have open_same: "socket_is_open ?v (socket (signaling (conns w ! c)))
      = socket_is_open w (socket (signaling (conns w ! c)))"
  proof (cases "socket (signaling (conns w ! c))")
    case None
    then show ?thesis by (simp add: socket_is_open_def)
  next
    case (Some s)
    have "sigsock_ok w (Some s)" using wf_signaling_ref [OF wf c] Some by simp
    then have "s < length (sockets w)" "is_signaling (handlers (sockets w ! s))"
      by (rule sigsock_okD)+
    then have "s \<noteq> m" using h by (auto simp: is_signaling_def)
    then show ?thesis using Some by (simp add: socket_is_open_def set_readyState_def)
  qed
  have vu: "valid_url (Some (serverUrls (conns w ! c)))" by (rule wf_valid_url [OF wf c])
  have vf: "conns ?v = conns w" "timers ?v = timers w" "clock ?v = clock w"
    "effects ?v = effects w" "activeConnections ?v = activeConnections w"
    "sockets ?v = (sockets w)[m := (sockets w ! m)\<lparr>readyState := CLOSED\<rparr>]"
    by (simp_all add: set_readyState_def)
  define ready where
    "ready = (state (signaling (conns w ! c)) = ''ready''
              \<and> socket_is_open w (socket (signaling (conns w ! c))))"
  let ?w' = "media_on_close u sid stid c ?v"
  let ?closed = "?v\<lparr>conns := (conns w)[c := (conns w ! c)\<lparr>media := (media (conns w ! c))\<lparr>state := ''closed''\<rparr>\<rparr>],
                   effects := effects w @ [Log ''[Media] Connection closed'']\<rparr>"
  have eq: "?w' =
      (if ready
       then ?closed\<lparr>timers := timers w @ [(clock w + 3000, ReconnectMedia u sid stid c)],
                     effects := effects ?closed @ [Log ''[Media] Reconnecting in 3s...'',
                                                  SetTimeout (ReconnectMedia u sid stid c) 3000]\<rparr>
       else connectToSignalingWebSocket sid stid (Some (serverUrls (conns w ! c))) (Some c)
              (?closed\<lparr>effects := effects ?closed @
                  [Log ''[Media] Signaling not ready - restarting both connections...'']\<rparr>))"
    using open_same unfolding ready_def
    by (simp add: media_on_close_eq [OF cv srv] Let_def vf)
  have tc: "\<forall>v. timer_callback (ReconnectMedia u sid stid c) v
             = connectToMediaWebSocket u sid stid (socket (signaling (conns v ! c))) c v"
    by simp
  have "activeConnections ?w' = activeConnections w \<and> length (conns ?w') = length (conns w)
     \<and> state (media (conns ?w' ! c)) = ''closed''
     \<and> (if ready
         then timers ?w' = timers w @ [(clock w + 3000, ReconnectMedia u sid stid c)]
              \<and> length (sockets ?w') = length (sockets w)
              \<and> signaling (conns ?w' ! c) = signaling (conns w ! c)
         else timers ?w' = timers w
              \<and> sockets ?w' = (sockets w)[m := (sockets w ! m)\<lparr>readyState := CLOSED\<rparr>]
                    @ [\<lparr>url = Some (JStr (serverUrls (conns w ! c))), readyState = CONNECTING,
                         handlers = SignalingWs sid stid c, onceOpenClose = 0\<rparr>]
              \<and> socket (signaling (conns ?w' ! c)) = Some (length (sockets w))
              \<and> state (signaling (conns ?w' ! c)) = ''connecting'')"
  proof (cases ready)
    case True
    then show ?thesis using c by (simp add: eq vf)
  next
    case False
    define x where "x = ?closed\<lparr>effects := effects ?closed @
                  [Log ''[Media] Signaling not ready - restarting both connections...'']\<rparr>"
    have w': "?w' = connectToSignalingWebSocket sid stid (Some (serverUrls (conns w ! c))) (Some c) x"
      using False by (simp add: eq x_def)
    have xf: "sockets x = (sockets w)[m := (sockets w ! m)\<lparr>readyState := CLOSED\<rparr>]"
      "timers x = timers w" "activeConnections x = activeConnections w"
      "length (conns x) = length (conns w)"
      by (simp_all add: x_def vf)
    have cx: "c < length (conns x)" using c by (simp add: xf)
    note re = connectToSignalingWebSocket_restart [OF vu cx, of sid stid]
    have "state (media (conns x ! c)) = ''closed''" using c by (simp add: x_def)
    then have med: "state (media (conns (connectToSignalingWebSocket sid stid
        (Some (serverUrls (conns w ! c))) (Some c) x) ! c)) = ''closed''"
      using vu cx
      by (simp add: connectToSignalingWebSocket_def valid_url_def Let_def prim_defs)
    show ?thesis
      using False med by (simp add: w' re xf)
  qed
  then show ?thesis
    unfolding ready_def using st tc by simp
qed


text \<open>The theorem at the media socket of the example session, where signaling is ready
  and open.\<close>

theorem media_close_reconnects_witness:
  "run example_hash example_config session_up boot = Returns live
   \<and> 1 < length (sockets live) \<and> readyState (sockets live ! 1) \<noteq> CLOSED
   \<and> handlers (sockets live ! 1) = MediaWs (Some (JStr ''wss://m'')) ''s'' ''t'' (Some 0) 0
   \<and> shouldReconnect (conns live ! 0)
   \<and> state (signaling (conns live ! 0)) = ''ready''
   \<and> socket_is_open live (socket (signaling (conns live ! 0)))
   \<and> (\<exists>w'. step example_hash example_config (WsClose 1) live = Returns w'
         \<and> activeConnections w' = activeConnections live
         \<and> timers w' = timers live @ [(clock live + 3000, ReconnectMedia (Some (JStr ''wss://m'')) ''s'' ''t'' 0)]
         \<and> length (sockets w') = length (sockets live)
         \<and> signaling (conns w' ! 0) = signaling (conns live ! 0))"
proof -
  have r: "run example_hash example_config session_up boot = Returns live" by (rule live_run)
  have m: "1 < length (sockets live)" by code_simp
  have rs: "readyState (sockets live ! 1) \<noteq> CLOSED" by code_simp
  have h: "handlers (sockets live ! 1) = MediaWs (Some (JStr ''wss://m'')) ''s'' ''t'' (Some 0) 0"
    by code_simp
  have sr: "shouldReconnect (conns live ! 0)" by code_simp
  have rd: "state (signaling (conns live ! 0)) = ''ready''" by code_simp
  have op: "socket_is_open live (socket (signaling (conns live ! 0)))" by code_simp
  from media_close_reconnects [OF r m rs h sr] rd op
  have "\<exists>w'. step example_hash example_config (WsClose 1) live = Returns w'
         \<and> activeConnections w' = activeConnections live
         \<and> timers w' = timers live @ [(clock live + 3000, ReconnectMedia (Some (JStr ''wss://m'')) ''s'' ''t'' 0)]
         \<and> length (sockets w') = length (sockets live)
         \<and> signaling (conns w' ! 0) = signaling (conns live ! 0)"
    by (simp only: simp_thms if_True) blast
  then show ?thesis using r m rs h sr rd op by blast
qed

subsection \<open>Teardown on the terminal stream state\<close>
















subsection \<open>The registry\<close>








subsection \<open>Timers and exceptions\<close>

text \<open>
  Claim C2 at a concrete run. The media socket of the example session closes while
  signaling is ready, which schedules the media reconnect timer; then the session is
  stopped. After the stop \<^verbatim>\<open>shouldReconnect\<close> is false and the session is out of the
  registry, and the timer is still pending. When it fires, its callback calls
  \<^verbatim>\<open>connectToMediaWebSocket\<close> without reading \<^verbatim>\<open>shouldReconnect\<close>: a third socket is created
  for the media URL and becomes the entry's media socket. The callback of the signaling
  reconnect timer, run on the same world, does nothing.
\<close>

theorem stale_media_timer_connects:
  "\<not> shouldReconnect (conns stopped ! 0)
   \<and> map_get (activeConnections stopped) ''s'' = None
   \<and> timers stopped = [(3000, ReconnectMedia (Some (JStr ''wss://m'')) ''s'' ''t'' 0)]
   \<and> length (sockets stopped) = 2
   \<and> step example_hash example_config TimerFires stopped = Returns stopped_then_fired
   \<and> length (sockets stopped_then_fired) = 3
   \<and> effects stopped_then_fired
       = effects stopped @ [Log ''[Media] Connecting for session'', NewWebSocket 2 (Some (JStr ''wss://m''))]
   \<and> socket (media (conns stopped_then_fired ! 0)) = Some 2
   \<and> state (media (conns stopped_then_fired ! 0)) = ''connecting''
   \<and> timer_callback (ReconnectSignaling ''s'' ''t'' 0) stopped = stopped"
  by code_simp

text \<open>
  Claim C3 at a concrete input. The frame \<^verbatim>\<open>null\<close> is valid JSON, so \<^verbatim>\<open>JSON.parse\<close> returns
  \<^verbatim>\<open>null\<close> and the read of \<^verbatim>\<open>msg.msg_type\<close> throws a TypeError. In the signaling handler
  the dispatch stands outside the \<^verbatim>\<open>try\<close>, so the exception leaves the handler and ends
  the run; in the media handler the same frame is caught and logged.
\<close>

theorem signaling_null_message_throws:
  "signaling_on_message signalingWs sid stid conn (Json JNull) w = Throws TypeError w
   \<and> handleMediaMessage (Json JNull) conn mediaWs signalingSocket sid stid w
       = console ''[Media] Failed to parse message'' w
   \<and> run example_hash example_config (session_up @ [WsMessage 0 (Json JNull)]) boot
       = Throws TypeError live"
proof -
  have "run example_hash example_config (session_up @ [WsMessage 0 (Json JNull)]) boot
       = Throws TypeError live"
    unfolding live_def by code_simp
  then show ?thesis
    by (simp add: signaling_on_message_def handleMediaMessage_def handleMediaMessage_try_def)
qed

end
